theory Spec2Isabelle
  imports Complex_Main
begin

section \<open>The learning-rate range test of \<^verbatim>\<open>torch_lr_finder/lr_finder.py\<close>\<close>

text \<open>
  Conventions of the embedding.
  \<^item> Python floats are modelled as \<^typ>\<open>real\<close>: rounding, overflow, infinities and NaN
    are outside the model. Python integers are \<^typ>\<open>int\<close>.
  \<^item> An exception is a value of \<open>py_error\<close>; a function that can raise returns
    \<open>py_error + 'a\<close> (\<open>Inl\<close> the exception). A method that mutates its object before
    it raises returns the object together with the outcome.
  \<^item> \<open>PYTORCH_VERSION < version.parse("1.1.0")\<close> is the boolean parameter \<open>legacy\<close> of
    \<open>get_lr\<close>.
\<close>

subsection \<open>Exceptions and float arithmetic\<close>

datatype py_error =
    ValueError string
  | RuntimeError string
  | ZeroDivisionError
  | IndexError
  | TypeError
  | StopIteration
  | NotImplementedError string
  | ComplexValue

text \<open>
  \<open>ComplexValue\<close> is not a Python exception. Python evaluates a negative float raised to
  a non-integral power to a complex number and goes on; the model has real-valued
  learning rates only and stops there with \<open>ComplexValue\<close>.
\<close>

text \<open>\<^verbatim>\<open>a / b\<close> on numbers: true division, \<^verbatim>\<open>ZeroDivisionError\<close> on a zero divisor.\<close>

definition py_div :: "real \<Rightarrow> real \<Rightarrow> py_error + real" where
  "py_div a b = (if b = 0 then Inl ZeroDivisionError else Inr (a / b))"

text \<open>\<^verbatim>\<open>x ** y\<close> on floats.\<close>

definition py_pow :: "real \<Rightarrow> real \<Rightarrow> py_error + real" where
  "py_pow x y =
     (if y = 0 then Inr 1
      else if 0 < x then Inr (x powr y)
      else if x = 0 then (if 0 < y then Inr 0 else Inl ZeroDivisionError)
      else if y = of_int \<lfloor>y\<rfloor> then Inr (x powi \<lfloor>y\<rfloor>)
      else Inl ComplexValue)"

text \<open>A list comprehension whose element expression can raise: the first exception wins.\<close>

fun comprehension :: "('a \<Rightarrow> py_error + 'b) \<Rightarrow> 'a list \<Rightarrow> py_error + 'b list" where
  "comprehension f [] = Inr []"
| "comprehension f (x # xs) =
     (case f x of
        Inl e \<Rightarrow> Inl e
      | Inr y \<Rightarrow> (case comprehension f xs of Inl e \<Rightarrow> Inl e | Inr ys \<Rightarrow> Inr (y # ys)))"

subsection \<open>The schedules \<^verbatim>\<open>LinearLR\<close> and \<^verbatim>\<open>ExponentialLR\<close>\<close>

datatype policy = ExponentialLR | LinearLR

record scheduler =
  policy :: policy
  end_lr :: real
  num_iter :: int
  base_lrs :: "real list"
  last_epoch :: int

text \<open>
  The ratio \<open>r\<close> of both \<open>get_lr\<close> methods: \<^verbatim>\<open>curr_iter / (self.num_iter - 1)\<close> with
  \<^verbatim>\<open>curr_iter = self.last_epoch + 1\<close> before PyTorch 1.1.0 and
  \<^verbatim>\<open>self.last_epoch / (self.num_iter - 1)\<close> from then on.
\<close>

definition ratio :: "bool \<Rightarrow> scheduler \<Rightarrow> py_error + real" where
  "ratio legacy S =
     (if legacy
      then (let curr_iter = last_epoch S + 1
            in py_div (of_int curr_iter) (of_int (num_iter S - 1)))
      else py_div (of_int (last_epoch S)) (of_int (num_iter S - 1)))"

definition linear_get_lr :: "bool \<Rightarrow> scheduler \<Rightarrow> py_error + real list" where
  "linear_get_lr legacy S =
     (case ratio legacy S of
        Inl e \<Rightarrow> Inl e
      | Inr r \<Rightarrow> Inr (map (\<lambda>base_lr. base_lr + r * (end_lr S - base_lr)) (base_lrs S)))"

definition exponential_get_lr :: "bool \<Rightarrow> scheduler \<Rightarrow> py_error + real list" where
  "exponential_get_lr legacy S =
     (case ratio legacy S of
        Inl e \<Rightarrow> Inl e
      | Inr r \<Rightarrow>
          comprehension
            (\<lambda>base_lr.
               case py_div (end_lr S) base_lr of
                 Inl e \<Rightarrow> Inl e
               | Inr q \<Rightarrow> (case py_pow q r of Inl e \<Rightarrow> Inl e | Inr p \<Rightarrow> Inr (base_lr * p)))
            (base_lrs S))"

text \<open>Method dispatch on the class of the schedule object.\<close>

definition get_lr :: "bool \<Rightarrow> scheduler \<Rightarrow> py_error + real list" where
  "get_lr legacy S =
     (case policy S of
        LinearLR \<Rightarrow> linear_get_lr legacy S
      | ExponentialLR \<Rightarrow> exponential_get_lr legacy S)"

text \<open>
  The value of \<open>last_epoch\<close> when the loop of \<open>range_test\<close> reads \<open>get_lr\<close> in iteration
  \<open>i\<close>: \<open>i\<close> itself from PyTorch 1.1.0 on, \<open>i - 1\<close> before.
\<close>

definition epoch_of_iteration :: "bool \<Rightarrow> int \<Rightarrow> int" where
  "epoch_of_iteration legacy i = (if legacy then i - 1 else i)"

definition schedule_at :: "policy \<Rightarrow> real \<Rightarrow> int \<Rightarrow> real list \<Rightarrow> bool \<Rightarrow> int \<Rightarrow> scheduler" where
  "schedule_at p e n bs legacy i =
     \<lparr>policy = p, end_lr = e, num_iter = n, base_lrs = bs,
      last_epoch = epoch_of_iteration legacy i\<rparr>"

subsection \<open>The optimizer and the base class of the schedules\<close>

text \<open>
  A parameter group of the optimizer is a dictionary; the program reads and writes its
  keys \<^verbatim>\<open>"lr"\<close> and \<^verbatim>\<open>"initial_lr"\<close> only. \<open>initial_lr g = None\<close> says that the key
  \<^verbatim>\<open>"initial_lr"\<close> is absent.
\<close>

record param_group =
  lr :: real
  initial_lr :: "real option"

text \<open>
  Modelled from the spec: the base class \<^verbatim>\<open>_LRScheduler\<close> of \<^verbatim>\<open>torch.optim.lr_scheduler\<close>,
  which both schedules extend and which is not part of the repository. The spec's data
  model has the base rate of a group captured once, at the construction of the schedule,
  in a field \<^verbatim>\<open>"initial_lr"\<close> of the group, and an iteration counter that starts at \<open>0\<close>;
  every step increments the counter and re-derives the rate of each group from its base
  rate. This is the class as of PyTorch 1.1.0: the constructor runs
  \<^verbatim>\<open>group.setdefault('initial_lr', group['lr'])\<close> on every group, reads
  \<^verbatim>\<open>base_lrs\<close> from the \<^verbatim>\<open>"initial_lr"\<close> fields, sets \<^verbatim>\<open>last_epoch = -1\<close> and calls
  \<^verbatim>\<open>step()\<close> once; \<^verbatim>\<open>step()\<close> increments \<^verbatim>\<open>last_epoch\<close> and assigns
  \<^verbatim>\<open>get_lr()\<close> to the groups with \<^verbatim>\<open>zip\<close>. The driver below is modelled on this
  version, where \<open>get_lr\<close> takes its second branch (\<open>legacy = False\<close>).
\<close>

definition initial_lr_of :: "param_group \<Rightarrow> real" where
  "initial_lr_of g = (case initial_lr g of None \<Rightarrow> lr g | Some v \<Rightarrow> v)"

definition setdefault_initial_lr :: "param_group \<Rightarrow> param_group" where
  "setdefault_initial_lr g = g\<lparr>initial_lr := Some (initial_lr_of g)\<rparr>"

text \<open>\<^verbatim>\<open>for param_group, lr in zip(param_groups, values): param_group["lr"] = lr\<close>\<close>

fun assign_lrs :: "param_group list \<Rightarrow> real list \<Rightarrow> param_group list" where
  "assign_lrs (g # gs) (v # vs) = g\<lparr>lr := v\<rparr> # assign_lrs gs vs"
| "assign_lrs gs vs = gs"

text \<open>
  \<^verbatim>\<open>step()\<close>. When \<open>get_lr\<close> raises, no group has been written; the schedule object is a
  local variable of \<open>range_test\<close> and is lost with the exception.
\<close>

definition scheduler_step ::
  "scheduler \<Rightarrow> param_group list \<Rightarrow> py_error + scheduler \<times> param_group list" where
  "scheduler_step S groups =
     (let S' = S\<lparr>last_epoch := last_epoch S + 1\<rparr>
      in case get_lr False S' of
           Inl e \<Rightarrow> Inl e
         | Inr values \<Rightarrow> Inr (S', assign_lrs groups values))"

text \<open>
  \<^verbatim>\<open>LinearLR.__init__\<close> and \<^verbatim>\<open>ExponentialLR.__init__\<close> (the same code): the check of
  \<open>num_iter\<close>, then the constructor of the base class. The groups are returned as the
  constructor leaves them, also when it raises.
\<close>

definition scheduler_init ::
  "policy \<Rightarrow> real \<Rightarrow> int \<Rightarrow> param_group list \<Rightarrow> (py_error + scheduler) \<times> param_group list" where
  "scheduler_init p end_lr' num_iter' groups =
     (if num_iter' \<le> 1
      then (Inl (ValueError ''`num_iter` must be larger than 1''), groups)
      else
        (let groups1 = map setdefault_initial_lr groups;
             S = \<lparr>policy = p, end_lr = end_lr', num_iter = num_iter',
                  base_lrs = map initial_lr_of groups1, last_epoch = - 1\<rparr>
         in case scheduler_step S groups1 of
              Inl e \<Rightarrow> (Inl e, groups1)
            | Inr (S', groups2) \<Rightarrow> (Inr S', groups2)))"

subsection \<open>The step executor\<close>

text \<open>
  A step executor owns a state of some type \<open>'w\<close> (its model, its data iterator); a call
  returns a loss or raises, and leaves a new state. \<open>step\<close> is \<^verbatim>\<open>Step.step\<close>: one retry
  after \<^verbatim>\<open>_reset()\<close> when \<^verbatim>\<open>_step()\<close> raises \<^verbatim>\<open>StopIteration\<close>. Its two arguments are the
  user's implementations of \<^verbatim>\<open>_step\<close> and \<^verbatim>\<open>_reset\<close>.
\<close>

type_synonym 'w step = "'w \<Rightarrow> (py_error + real) \<times> 'w"

definition step :: "'w step \<Rightarrow> ('w \<Rightarrow> (py_error + unit) \<times> 'w) \<Rightarrow> 'w step" where
  "step step_impl reset_impl w =
     (case step_impl w of
        (Inl StopIteration, w1) \<Rightarrow>
          (case reset_impl w1 of
             (Inl e, w2) \<Rightarrow> (Inl e, w2)
           | (Inr u, w2) \<Rightarrow> step_impl w2)
      | r \<Rightarrow> r)"

subsection \<open>\<^verbatim>\<open>LRFinder\<close>\<close>

text \<open>
  The object: the parameter groups of its optimizer, the two series of its history
  dictionary and \<open>best_loss\<close> (\<open>None\<close> as in Python). The executors are arguments of the
  functions below.
\<close>

record lr_finder =
  param_groups :: "param_group list"
  history_lr :: "real list"
  history_loss :: "real list"
  best_loss :: "real option"

text \<open>\<^verbatim>\<open>_check_for_scheduler\<close>: the loop over the groups.\<close>

fun check_groups :: "param_group list \<Rightarrow> py_error + unit" where
  "check_groups [] = Inr ()"
| "check_groups (g # gs) =
     (if initial_lr g \<noteq> None
      then Inl (RuntimeError ''Optimizer already has a scheduler attached to it'')
      else check_groups gs)"

definition check_for_scheduler :: "lr_finder \<Rightarrow> py_error + unit" where
  "check_for_scheduler F = check_groups (param_groups F)"

text \<open>A \<open>start_lr\<close> is a number or a list of numbers; \<open>truthy\<close> is its truth value in \<^verbatim>\<open>if start_lr:\<close>.\<close>

datatype lr_arg = Scalar real | PerGroup "real list"

fun truthy :: "lr_arg \<Rightarrow> bool" where
  "truthy (Scalar x) = (x \<noteq> 0)"
| "truthy (PerGroup xs) = (xs \<noteq> [])"

definition set_learning_rate :: "lr_finder \<Rightarrow> lr_arg \<Rightarrow> py_error + lr_finder" where
  "set_learning_rate F new_lrs =
     (let new_lrs1 =
            (case new_lrs of
               PerGroup xs \<Rightarrow> xs
             | Scalar x \<Rightarrow> replicate (length (param_groups F)) x)
      in if length new_lrs1 \<noteq> length (param_groups F)
         then Inl (ValueError
           ''Length of `new_lrs` is not equal to the number of parameter groups in the given optimizer'')
         else Inr (F\<lparr>param_groups := assign_lrs (param_groups F) new_lrs1\<rparr>))"

text \<open>
  \<^verbatim>\<open>str.lower\<close> on the bytes of the string. Only the letters \<open>A\<close> to \<open>Z\<close> change, which is
  all that the comparison with \<^verbatim>\<open>"exp"\<close> and \<^verbatim>\<open>"linear"\<close> can see: no character outside
  ASCII has one of their letters as its lower case.
\<close>

definition lower_char :: "char \<Rightarrow> char" where
  "lower_char c =
     (case map_of (zip ''ABCDEFGHIJKLMNOPQRSTUVWXYZ'' ''abcdefghijklmnopqrstuvwxyz'') c of
        None \<Rightarrow> c
      | Some d \<Rightarrow> d)"

definition lower :: "string \<Rightarrow> string" where
  "lower s = map lower_char s"

text \<open>Lines 189 and 190: \<^verbatim>\<open>if start_lr: self._set_learning_rate(start_lr)\<close>.\<close>

definition apply_start_lr :: "lr_arg option \<Rightarrow> lr_finder \<Rightarrow> py_error + lr_finder" where
  "apply_start_lr start_lr F =
     (case start_lr of
        None \<Rightarrow> Inr F
      | Some new_lrs \<Rightarrow> if truthy new_lrs then set_learning_rate F new_lrs else Inr F)"

text \<open>
  \<open>range_test\<close> up to its loop (lines 181 to 201): the reset of the results, the check
  for a schedule, the starting rate, the schedule, the check of \<open>smooth_f\<close>. It returns
  the object as the code leaves it, with the schedule or the exception.
\<close>

definition prepare ::
  "lr_arg option \<Rightarrow> real \<Rightarrow> int \<Rightarrow> string \<Rightarrow> real \<Rightarrow> lr_finder
     \<Rightarrow> (py_error + scheduler) \<times> lr_finder" where
  "prepare start_lr end_lr' num_iter' step_mode smooth_f F =
     (let F0 = F\<lparr>history_lr := [], history_loss := [], best_loss := None\<rparr>
      in case check_for_scheduler F0 of
           Inl e \<Rightarrow> (Inl e, F0)
         | Inr u \<Rightarrow>
             (case apply_start_lr start_lr F0 of
                Inl e \<Rightarrow> (Inl e, F0)
              | Inr F1 \<Rightarrow>
                  (case (if lower step_mode = ''exp''
                         then scheduler_init ExponentialLR end_lr' num_iter' (param_groups F1)
                         else if lower step_mode = ''linear''
                         then scheduler_init LinearLR end_lr' num_iter' (param_groups F1)
                         else (Inl (ValueError (''expected one of (exp, linear), got '' @ step_mode)),
                               param_groups F1)) of
                     (Inl e, groups) \<Rightarrow> (Inl e, F1\<lparr>param_groups := groups\<rparr>)
                   | (Inr lr_schedule, groups) \<Rightarrow>
                       (if smooth_f < 0 \<or> 1 \<le> smooth_f
                        then (Inl (ValueError ''smooth_f is outside the range [0, 1[''),
                              F1\<lparr>param_groups := groups\<rparr>)
                        else (Inr lr_schedule, F1\<lparr>param_groups := groups\<rparr>)))))"

text \<open>The loss of one iteration (lines 205 to 207): the training step, then the validation step if there is one.\<close>

definition fetch_loss :: "'w step \<Rightarrow> 'w step option \<Rightarrow> 'w step" where
  "fetch_loss train_step val_step w =
     (case train_step w of
        (Inl e, w1) \<Rightarrow> (Inl e, w1)
      | (Inr loss, w1) \<Rightarrow>
          (case val_step of
             None \<Rightarrow> (Inr loss, w1)
           | Some v \<Rightarrow> v w1))"

text \<open>
  Lines 214 to 220: the best loss and the smoothing. \<^verbatim>\<open>self.history["loss"][-1]\<close> raises
  \<^verbatim>\<open>IndexError\<close> on an empty list, and \<^verbatim>\<open>loss < None\<close> raises \<^verbatim>\<open>TypeError\<close>.
\<close>

definition track_loss :: "real \<Rightarrow> nat \<Rightarrow> real \<Rightarrow> lr_finder \<Rightarrow> py_error + real \<times> lr_finder" where
  "track_loss smooth_f iteration loss F =
     (if iteration = 0 then Inr (loss, F\<lparr>best_loss := Some loss\<rparr>)
      else
        (case (if 0 < smooth_f
               then (if history_loss F = [] then Inl IndexError
                     else Inr (smooth_f * loss + (1 - smooth_f) * last (history_loss F)))
               else Inr loss) of
           Inl e \<Rightarrow> Inl e
         | Inr loss1 \<Rightarrow>
             (case best_loss F of
                None \<Rightarrow> Inl TypeError
              | Some b \<Rightarrow> Inr (loss1, if loss1 < b then F\<lparr>best_loss := Some loss1\<rparr> else F))))"

text \<open>
  Lines 210 and 211: the rate of the first group goes to the history, then the schedule
  steps. \<^verbatim>\<open>get_lr()[0]\<close> raises \<^verbatim>\<open>IndexError\<close> on an empty list.
\<close>

definition update_lr :: "scheduler \<Rightarrow> lr_finder \<Rightarrow> (py_error + scheduler) \<times> lr_finder" where
  "update_lr lr_schedule F =
     (case get_lr False lr_schedule of
        Inl e \<Rightarrow> (Inl e, F)
      | Inr [] \<Rightarrow> (Inl IndexError, F)
      | Inr (lr0 # rest) \<Rightarrow>
          (let F1 = F\<lparr>history_lr := history_lr F @ [lr0]\<rparr>
           in case scheduler_step lr_schedule (param_groups F1) of
                Inl e \<Rightarrow> (Inl e, F1)
              | Inr (S', groups) \<Rightarrow> (Inr S', F1\<lparr>param_groups := groups\<rparr>)))"

datatype flow = Continue | Break

text \<open>
  Lines 223 to 226: the loss goes to the history, and the loop stops when it exceeds
  \<open>diverge_th * best_loss\<close>. \<^verbatim>\<open>diverge_th * None\<close> raises \<^verbatim>\<open>TypeError\<close>.
\<close>

definition record_loss :: "real \<Rightarrow> real \<Rightarrow> lr_finder \<Rightarrow> (py_error + flow) \<times> lr_finder" where
  "record_loss diverge_th loss F =
     (let F1 = F\<lparr>history_loss := history_loss F @ [loss]\<rparr>
      in case best_loss F1 of
           None \<Rightarrow> (Inl TypeError, F1)
         | Some b \<Rightarrow> (Inr (if diverge_th * b < loss then Break else Continue), F1))"

text \<open>
  The body of the loop (lines 204 to 226) on the schedule, the object and the state of
  the executors.
\<close>

definition iteration_body ::
  "'w step \<Rightarrow> 'w step option \<Rightarrow> real \<Rightarrow> real \<Rightarrow> nat
     \<Rightarrow> scheduler \<times> lr_finder \<times> 'w \<Rightarrow> (py_error + flow) \<times> scheduler \<times> lr_finder \<times> 'w" where
  "iteration_body train_step val_step smooth_f diverge_th iteration st =
     (case st of (lr_schedule, F, w) \<Rightarrow>
      (case fetch_loss train_step val_step w of
         (Inl e, w1) \<Rightarrow> (Inl e, lr_schedule, F, w1)
       | (Inr loss, w1) \<Rightarrow>
           (case update_lr lr_schedule F of
              (Inl e, F1) \<Rightarrow> (Inl e, lr_schedule, F1, w1)
            | (Inr S', F2) \<Rightarrow>
                (case track_loss smooth_f iteration loss F2 of
                   Inl e \<Rightarrow> (Inl e, S', F2, w1)
                 | Inr (loss1, F3) \<Rightarrow>
                     (case record_loss diverge_th loss1 F3 of
                        (r, F4) \<Rightarrow> (r, S', F4, w1))))))"

text \<open>A \<^verbatim>\<open>for\<close> loop with \<^verbatim>\<open>break\<close> over a list of indices.\<close>

fun for_loop ::
  "(nat \<Rightarrow> 's \<Rightarrow> (py_error + flow) \<times> 's) \<Rightarrow> nat list \<Rightarrow> 's \<Rightarrow> (py_error + flow) \<times> 's" where
  "for_loop body [] st = (Inr Continue, st)"
| "for_loop body (i # is) st =
     (case body i st of
        (Inr Continue, st') \<Rightarrow> for_loop body is st'
      | r \<Rightarrow> r)"

text \<open>\<open>range_test\<close>: the preparation, then the loop over \<^verbatim>\<open>range(num_iter)\<close>.\<close>

definition range_test ::
  "'w step \<Rightarrow> 'w step option \<Rightarrow> lr_arg option \<Rightarrow> real \<Rightarrow> int \<Rightarrow> string \<Rightarrow> real \<Rightarrow> real
     \<Rightarrow> lr_finder \<Rightarrow> 'w \<Rightarrow> (py_error + unit) \<times> lr_finder \<times> 'w" where
  "range_test train_step val_step start_lr end_lr' num_iter' step_mode smooth_f diverge_th F w =
     (case prepare start_lr end_lr' num_iter' step_mode smooth_f F of
        (Inl e, F1) \<Rightarrow> (Inl e, F1, w)
      | (Inr lr_schedule, F1) \<Rightarrow>
          (case for_loop (iteration_body train_step val_step smooth_f diverge_th)
                  [0..<nat num_iter'] (lr_schedule, F1, w) of
             (Inl e, S', F2, w') \<Rightarrow> (Inl e, F2, w')
           | (Inr fl, S', F2, w') \<Rightarrow> (Inr (), F2, w')))"

subsection \<open>The analyzer: \<^verbatim>\<open>LRFinder.plot\<close>\<close>

text \<open>
  The slice \<^verbatim>\<open>xs[start:stop]\<close> of Python, each bound optional: a negative bound counts
  from the end, and every bound is clamped to the list.
\<close>

definition slice_bound :: "nat \<Rightarrow> int \<Rightarrow> nat" where
  "slice_bound n i = (if i < 0 then nat (max (i + int n) 0) else min (nat i) n)"

definition py_slice :: "'a list \<Rightarrow> int option \<Rightarrow> int option \<Rightarrow> 'a list" where
  "py_slice xs start stop =
     (let n = length xs;
          a = (case start of None \<Rightarrow> 0 | Some i \<Rightarrow> slice_bound n i);
          b = (case stop of None \<Rightarrow> n | Some j \<Rightarrow> slice_bound n j)
      in drop a (take b xs))"

text \<open>\<^verbatim>\<open>xs[i]\<close> for an index that is not negative.\<close>

definition index :: "'a list \<Rightarrow> nat \<Rightarrow> py_error + 'a" where
  "index xs i = (if i < length xs then Inr (xs ! i) else Inl IndexError)"

text \<open>Lines 291 to 296, for one of the two series.\<close>

definition trimmed :: "int \<Rightarrow> int \<Rightarrow> 'a list \<Rightarrow> 'a list" where
  "trimmed skip_start skip_end xs =
     (if skip_end = 0 then py_slice xs (Some skip_start) None
      else py_slice xs (Some skip_start) (Some (- skip_end)))"

text \<open>
  The trimming in the words of the spec: drop the first \<open>skip_start\<close> records; if
  \<open>skip_end\<close> is \<open>0\<close> keep the remainder as it is, otherwise drop its last \<open>skip_end\<close>
  records as well.
\<close>

definition trim_spec :: "nat \<Rightarrow> nat \<Rightarrow> 'a list \<Rightarrow> 'a list" where
  "trim_spec skip_start skip_end xs =
     (let remainder = drop skip_start xs
      in if skip_end = 0 then remainder else rev (drop skip_end (rev remainder)))"

text \<open>
  Modelled from the spec: \<^verbatim>\<open>numpy.gradient\<close> and \<^verbatim>\<open>argmin\<close> on an array of one
  dimension, which are not part of the repository. The gradient has central differences
  in the interior and one-sided differences at the two ends, and needs two points at
  least (\<^verbatim>\<open>ValueError\<close> otherwise); \<open>argmin\<close> is the first index of the minimum.
\<close>

definition np_gradient :: "real list \<Rightarrow> py_error + real list" where
  "np_gradient f =
     (let n = length f
      in if n < 2
         then Inl (ValueError ''Shape of array too small to calculate a numerical gradient'')
         else Inr (map (\<lambda>i. if i = 0 then f ! 1 - f ! 0
                            else if i = n - 1 then f ! (n - 1) - f ! (n - 2)
                            else (f ! (i + 1) - f ! (i - 1)) / 2)
                       [0..<n]))"

fun first_index :: "'a \<Rightarrow> 'a list \<Rightarrow> nat" where
  "first_index v [] = 0"
| "first_index v (x # xs) = (if x = v then 0 else Suc (first_index v xs))"

definition np_argmin :: "real list \<Rightarrow> py_error + nat" where
  "np_argmin g =
     (if g = [] then Inl (ValueError ''attempt to get argmin of an empty sequence'')
      else Inr (first_index (Min (set g)) g))"

text \<open>
  Lines 310 to 316: \<open>min_grad_idx\<close>, which stays \<open>None\<close> when the computation raises
  \<^verbatim>\<open>ValueError\<close>.
\<close>

definition steepest :: "real list \<Rightarrow> py_error + nat option" where
  "steepest losses =
     (case (case np_gradient losses of Inl e \<Rightarrow> Inl e | Inr g \<Rightarrow> np_argmin g) of
        Inl (ValueError m) \<Rightarrow> Inr None
      | Inl e \<Rightarrow> Inl e
      | Inr i \<Rightarrow> Inr (Some i))"

text \<open>
  The axes object is the log of what has been drawn on it. \<^verbatim>\<open>plt.subplots()\<close> gives
  \<open>new_axes\<close>; \<^verbatim>\<open>plt.show()\<close> leaves no trace in the result.
\<close>

record axes =
  lines :: "(real list \<times> real list) list"
  markers :: "(real \<times> real) list"
  legend :: bool
  xscale :: string
  xlabel :: string
  ylabel :: string
  vlines :: "real list"

definition new_axes :: axes where
  "new_axes = \<lparr>lines = [], markers = [], legend = False, xscale = ''linear'',
               xlabel = [], ylabel = [], vlines = []\<rparr>"

text \<open>The argument \<open>show_lr\<close>, when it is not \<open>None\<close>: a float, or a value of another type.\<close>

datatype py_value = PyFloat real | PyOther

text \<open>Lines 307 to 328: the index of the steepest gradient and its marker on the axes.\<close>

definition mark_suggestion ::
  "real list \<Rightarrow> real list \<Rightarrow> axes \<Rightarrow> py_error + nat option \<times> axes" where
  "mark_suggestion lrs losses ax =
     (case steepest losses of
        Inl e \<Rightarrow> Inl e
      | Inr None \<Rightarrow> Inr (None, ax)
      | Inr (Some min_grad_idx) \<Rightarrow>
          (case index lrs min_grad_idx of
             Inl e \<Rightarrow> Inl e
           | Inr x \<Rightarrow>
               (case index losses min_grad_idx of
                  Inl e \<Rightarrow> Inl e
                | Inr y \<Rightarrow>
                    Inr (Some min_grad_idx,
                         ax\<lparr>markers := markers ax @ [(x, y)], legend := True\<rparr>))))"

text \<open>
  \<open>plot\<close>. The result \<open>(ax, Some v)\<close> is the Python pair \<^verbatim>\<open>ax, lrs[min_grad_idx]\<close>, and
  \<open>(ax, None)\<close> is \<^verbatim>\<open>ax\<close> alone. The last test, \<^verbatim>\<open>if suggest_lr and min_grad_idx\<close>, is on
  the truth value of the index: \<open>None\<close> and \<open>0\<close> are false.
\<close>

definition plot ::
  "lr_finder \<Rightarrow> int \<Rightarrow> int \<Rightarrow> bool \<Rightarrow> py_value option \<Rightarrow> axes option \<Rightarrow> bool
     \<Rightarrow> py_error + axes \<times> real option" where
  "plot F skip_start skip_end log_lr show_lr ax suggest_lr =
     (if skip_start < 0 then Inl (ValueError ''skip_start cannot be negative'')
      else if skip_end < 0 then Inl (ValueError ''skip_end cannot be negative'')
      else if show_lr = Some PyOther then Inl (ValueError ''show_lr must be float'')
      else
        (let lrs = trimmed skip_start skip_end (history_lr F);
             losses = trimmed skip_start skip_end (history_loss F);
             ax1 = (case ax of None \<Rightarrow> new_axes | Some a \<Rightarrow> a);
             ax2 = ax1\<lparr>lines := lines ax1 @ [(lrs, losses)]\<rparr>
         in case (if suggest_lr then mark_suggestion lrs losses ax2 else Inr (None, ax2)) of
              Inl e \<Rightarrow> Inl e
            | Inr (min_grad_idx, ax3) \<Rightarrow>
                (let ax4 = (if log_lr then ax3\<lparr>xscale := ''log''\<rparr> else ax3);
                     ax5 = ax4\<lparr>xlabel := ''Learning rate'', ylabel := ''Loss''\<rparr>;
                     ax6 = (case show_lr of
                              Some (PyFloat x) \<Rightarrow> ax5\<lparr>vlines := vlines ax5 @ [x]\<rparr>
                            | _ \<Rightarrow> ax5)
                 in case min_grad_idx of
                      None \<Rightarrow> Inr (ax6, None)
                    | Some i \<Rightarrow>
                        if suggest_lr \<and> i \<noteq> 0
                        then (case index lrs i of Inl e \<Rightarrow> Inl e | Inr v \<Rightarrow> Inr (ax6, Some v))
                        else Inr (ax6, None))))"

subsection \<open>What a run is measured against\<close>

text \<open>
  The state of the executors after the loss of one iteration has been fetched, and the
  raw loss of iteration \<open>i\<close> of a run that starts in the state \<open>w\<close>: what the executors
  return at their \<open>i\<close>-th call.
\<close>

definition advance :: "'w step \<Rightarrow> 'w step option \<Rightarrow> 'w \<Rightarrow> 'w" where
  "advance train_step val_step w = snd (fetch_loss train_step val_step w)"

definition raw_loss :: "'w step \<Rightarrow> 'w step option \<Rightarrow> 'w \<Rightarrow> nat \<Rightarrow> py_error + real" where
  "raw_loss train_step val_step w i =
     fst (fetch_loss train_step val_step ((advance train_step val_step ^^ i) w))"

text \<open>
  The recorded loss of iteration \<open>i\<close> exceeds \<open>diverge_th\<close> times the least loss recorded
  up to and including iteration \<open>i\<close>.
\<close>

definition diverged :: "real \<Rightarrow> real list \<Rightarrow> nat \<Rightarrow> bool" where
  "diverged diverge_th H i = (diverge_th * Min (set (take (Suc i) H)) < H ! i)"

text \<open>
  A list of recorded losses follows the smoothing rule on the raw losses of a run that
  starts in \<open>w\<close>: the first recorded loss is the raw one, and so is every recorded loss
  when \<open>smooth_f\<close> is \<open>0\<close>; otherwise the recorded loss of iteration \<open>i\<close> is
  \<open>smooth_f * raw i + (1 - smooth_f) * recorded (i - 1)\<close>.
\<close>

definition recorded_as ::
  "'w step \<Rightarrow> 'w step option \<Rightarrow> real \<Rightarrow> 'w \<Rightarrow> real list \<Rightarrow> bool" where
  "recorded_as train_step val_step smooth_f w H =
     (\<forall>i < length H.
        case raw_loss train_step val_step w i of
          Inl e \<Rightarrow> False
        | Inr raw \<Rightarrow>
            H ! i = (if i = 0 \<or> smooth_f = 0 then raw
                     else smooth_f * raw + (1 - smooth_f) * H ! (i - 1)))"

subsection \<open>Invariants of the loop\<close>

text \<open>
  What holds when the loop is about to run iteration \<open>i\<close>, on the side of the losses:
  \<open>i\<close> records in both series, the executors stepped \<open>i\<close> times, the best loss the least
  recorded one, the recorded losses smoothed from the raw ones, and no divergence yet.
\<close>

definition loss_inv ::
  "'w step \<Rightarrow> 'w step option \<Rightarrow> real \<Rightarrow> real \<Rightarrow> 'w \<Rightarrow> nat \<Rightarrow> scheduler \<times> lr_finder \<times> 'w \<Rightarrow> bool" where
  "loss_inv train_step val_step smooth_f diverge_th w0 i st =
     (case st of (S, F, w) \<Rightarrow>
        length (history_loss F) = i \<and> length (history_lr F) = i
      \<and> w = (advance train_step val_step ^^ i) w0
      \<and> (i = 0 \<longrightarrow> best_loss F = None)
      \<and> (0 < i \<longrightarrow> best_loss F = Some (Min (set (history_loss F))))
      \<and> recorded_as train_step val_step smooth_f w0 (history_loss F)
      \<and> (\<forall>k < i. \<not> diverged diverge_th (history_loss F) k))"

text \<open>What holds when the loop over \<open>n\<close> iterations has ended with the outcome \<open>r\<close>.\<close>

definition loss_post ::
  "'w step \<Rightarrow> 'w step option \<Rightarrow> real \<Rightarrow> real \<Rightarrow> 'w \<Rightarrow> nat \<Rightarrow> py_error + flow
     \<Rightarrow> scheduler \<times> lr_finder \<times> 'w \<Rightarrow> bool" where
  "loss_post train_step val_step smooth_f diverge_th w0 n r st =
     (case st of (S, F, w) \<Rightarrow>
        recorded_as train_step val_step smooth_f w0 (history_loss F)
      \<and> (history_loss F = [] \<longrightarrow> best_loss F = None)
      \<and> (history_loss F \<noteq> [] \<longrightarrow> best_loss F = Some (Min (set (history_loss F))))
      \<and> length (history_loss F) \<le> n
      \<and> (\<forall>k. Suc k < length (history_loss F) \<longrightarrow> \<not> diverged diverge_th (history_loss F) k)
      \<and> (\<forall>fl. r = Inr fl \<longrightarrow>
            length (history_lr F) = length (history_loss F)
          \<and> w = (advance train_step val_step ^^ length (history_loss F)) w0
          \<and> (fl = Continue \<longrightarrow>
                length (history_loss F) = n
              \<and> (\<forall>k < n. \<not> diverged diverge_th (history_loss F) k))
          \<and> (fl = Break \<longrightarrow>
                history_loss F \<noteq> []
              \<and> diverged diverge_th (history_loss F) (length (history_loss F) - 1))))"

text \<open>
  The same on the side of the learning rates, for a schedule of the policy \<open>p\<close> with the
  base rates \<open>bs\<close>: the schedule is at iteration \<open>i\<close>, the groups carry its rates and
  their markers, and record \<open>k\<close> of the history is the first rate of iteration \<open>k\<close>.
\<close>

definition lr_inv ::
  "policy \<Rightarrow> real \<Rightarrow> int \<Rightarrow> real list \<Rightarrow> nat \<Rightarrow> scheduler \<times> lr_finder \<times> 'w \<Rightarrow> bool" where
  "lr_inv p e n bs i st =
     (case st of (S, F, w) \<Rightarrow>
        S = schedule_at p e n bs False (int i)
      \<and> length (history_lr F) = i
      \<and> get_lr False S = Inr (map lr (param_groups F))
      \<and> (\<forall>g \<in> set (param_groups F). initial_lr g \<noteq> None)
      \<and> (\<forall>k < i. \<exists>vs. get_lr False (schedule_at p e n bs False (int k)) = Inr vs
                     \<and> vs \<noteq> [] \<and> history_lr F ! k = hd vs))"

definition lr_post ::
  "policy \<Rightarrow> real \<Rightarrow> int \<Rightarrow> real list \<Rightarrow> py_error + flow \<Rightarrow> scheduler \<times> lr_finder \<times> 'w \<Rightarrow> bool" where
  "lr_post p e n bs r st =
     (case st of (S, F, w) \<Rightarrow>
        (\<forall>g \<in> set (param_groups F). initial_lr g \<noteq> None)
      \<and> (\<forall>k < length (history_lr F).
            \<exists>vs. get_lr False (schedule_at p e n bs False (int k)) = Inr vs
                \<and> vs \<noteq> [] \<and> history_lr F ! k = hd vs)
      \<and> (\<forall>fl. r = Inr fl \<longrightarrow>
            get_lr False (schedule_at p e n bs False (int (length (history_lr F))))
              = Inr (map lr (param_groups F))))"

subsection \<open>Objects for the examples\<close>

definition twenty :: lr_finder where
  "twenty = \<lparr>param_groups = [], history_lr = map real [0..<20],
             history_loss = map real (rev [0..<20]), best_loss = Some 0\<rparr>"

definition steep_start :: lr_finder where
  "steep_start = \<lparr>param_groups = [], history_lr = [1/1000, 1/100, 1/10],
                  history_loss = [1, 1/2, 2/5], best_loss = Some (2/5)\<rparr>"

text \<open>
  An executor whose state counts its calls and whose losses are \<open>1\<close>, \<open>2\<close>, \<open>30\<close>, \<open>30\<close>,
  and so on; an object as its constructor leaves it, on an optimizer of two groups; and
  the same object after a run of \<open>range_test\<close>.
\<close>

definition ex_train :: "nat step" where
  "ex_train k = (Inr (if k = 0 then 1 else if k = 1 then 2 else 30), Suc k)"

definition fresh :: lr_finder where
  "fresh = \<lparr>param_groups = [\<lparr>lr = 1/10, initial_lr = None\<rparr>, \<lparr>lr = 1/5, initial_lr = None\<rparr>],
            history_lr = [], history_loss = [], best_loss = None\<rparr>"

definition used :: lr_finder where
  "used = \<lparr>param_groups = [\<lparr>lr = 1, initial_lr = Some (1/10)\<rparr>, \<lparr>lr = 1, initial_lr = Some (1/5)\<rparr>],
           history_lr = [1/10, 2/5, 7/10], history_loss = [1, 3/2, 63/4], best_loss = Some 1\<rparr>"

section \<open>Properties of the schedules\<close>

lemma schedule_at_sel [simp]:
  "policy (schedule_at p e n bs legacy i) = p"
  "end_lr (schedule_at p e n bs legacy i) = e"
  "num_iter (schedule_at p e n bs legacy i) = n"
  "base_lrs (schedule_at p e n bs legacy i) = bs"
  "last_epoch (schedule_at p e n bs legacy i) = epoch_of_iteration legacy i"
  by (simp_all add: schedule_at_def)

lemma ratio_at:
  "1 < n \<Longrightarrow> ratio legacy (schedule_at p e n bs legacy i) = Inr (of_int i / of_int (n - 1))"
  by (simp add: ratio_def epoch_of_iteration_def py_div_def)

lemma comprehension_total:
  "(\<And>x. x \<in> set xs \<Longrightarrow> f x = Inr (g x)) \<Longrightarrow> comprehension f xs = Inr (map g xs)"
  by (induction xs) simp_all

lemma linear_at:
  "1 < n \<Longrightarrow> get_lr legacy (schedule_at LinearLR e n bs legacy i)
     = Inr (map (\<lambda>b. b + (of_int i / of_int (n - 1)) * (e - b)) bs)"
  by (simp add: get_lr_def linear_get_lr_def ratio_at)

lemma exponential_at:
  assumes "1 < n" and "\<forall>b \<in> set bs. 0 < b" and "0 < e"
  shows "get_lr legacy (schedule_at ExponentialLR e n bs legacy i)
     = Inr (map (\<lambda>b. b * (if i = 0 then 1 else (e / b) powr (of_int i / of_int (n - 1)))) bs)"
proof -
  let ?r = "real_of_int i / real_of_int (n - 1)"
  have r0: "?r = 0 \<longleftrightarrow> i = 0" using assms(1) by simp
  have "comprehension
          (\<lambda>b. case py_div e b of Inl x \<Rightarrow> Inl x
                | Inr q \<Rightarrow> (case py_pow q ?r of Inl x \<Rightarrow> Inl x | Inr p \<Rightarrow> Inr (b * p))) bs
        = Inr (map (\<lambda>b. b * (if i = 0 then 1 else (e / b) powr ?r)) bs)"
  proof (rule comprehension_total)
    fix b assume "b \<in> set bs"
    with assms have "0 < b" "0 < e / b" by simp_all
    then show "(case py_div e b of Inl x \<Rightarrow> Inl x
                | Inr q \<Rightarrow> (case py_pow q ?r of Inl x \<Rightarrow> Inl x | Inr p \<Rightarrow> Inr (b * p)))
               = Inr (b * (if i = 0 then 1 else (e / b) powr ?r))"
      using r0 by (simp add: py_div_def py_pow_def)
  qed
  then show ?thesis
    by (simp add: get_lr_def exponential_get_lr_def ratio_at [OF assms(1)] del: of_int_diff)
qed

lemma powr_strictly_between:
  fixes b e r :: real
  assumes "0 < b" "b < e" "0 < r" "r < 1"
  shows "b < b * (e / b) powr r" and "b * (e / b) powr r < e"
proof -
  have q: "1 < e / b" using assms by simp
  have "1 < (e / b) powr r" using q assms(3) by (rule gr_one_powr)
  then show "b < b * (e / b) powr r" using assms(1) by simp
  have "(e / b) powr r < (e / b) powr 1" using q assms(4) by (simp only: powr_less_cancel_iff)
  then have "(e / b) powr r < e / b" using q by simp
  then have "b * (e / b) powr r < b * (e / b)" using assms(1) by (simp only: mult_less_cancel_left_pos)
  then show "b * (e / b) powr r < e" using assms(1) by simp
qed

text \<open>
  Claim C1. For every \<open>num_iter\<close> \<open>n > 1\<close>: the linear schedule returns the base rates at
  iteration \<open>0\<close> and \<open>end_lr\<close> for every group at iteration \<open>n - 1\<close>; with positive base and
  end rates the exponential schedule does the same, and at every iteration strictly
  between \<open>0\<close> and \<open>n - 1\<close> each of its values lies strictly between the group's base rate
  and \<open>end_lr\<close> when \<open>end_lr\<close> exceeds that base rate.
\<close>

theorem schedule_endpoints:
  assumes "1 < n"
  shows "get_lr legacy (schedule_at LinearLR e n bs legacy 0) = Inr bs
       \<and> get_lr legacy (schedule_at LinearLR e n bs legacy (n - 1)) = Inr (map (\<lambda>b. e) bs)
       \<and> ((\<forall>b \<in> set bs. 0 < b) \<and> 0 < e \<longrightarrow>
            get_lr legacy (schedule_at ExponentialLR e n bs legacy 0) = Inr bs
          \<and> get_lr legacy (schedule_at ExponentialLR e n bs legacy (n - 1)) = Inr (map (\<lambda>b. e) bs)
          \<and> (\<forall>i. 0 < i \<and> i < n - 1 \<longrightarrow>
               (\<exists>vs. get_lr legacy (schedule_at ExponentialLR e n bs legacy i) = Inr vs
                   \<and> length vs = length bs
                   \<and> (\<forall>k < length bs. bs ! k < e \<longrightarrow> bs ! k < vs ! k \<and> vs ! k < e))))"
proof (intro conjI impI allI)
  show "get_lr legacy (schedule_at LinearLR e n bs legacy 0) = Inr bs"
    using assms by (simp add: linear_at)
  show "get_lr legacy (schedule_at LinearLR e n bs legacy (n - 1)) = Inr (map (\<lambda>b. e) bs)"
    using assms by (simp add: linear_at)
next
  assume pos: "(\<forall>b \<in> set bs. 0 < b) \<and> 0 < e"
  then have p1: "\<forall>b \<in> set bs. 0 < b" and p2: "0 < e" by simp_all
  show "get_lr legacy (schedule_at ExponentialLR e n bs legacy 0) = Inr bs"
    by (simp add: exponential_at [OF assms p1 p2])
  have "map (\<lambda>b. b * (if n - 1 = 0 then 1 else (e / b) powr (of_int (n - 1) / of_int (n - 1)))) bs
        = map (\<lambda>b. e) bs"
  proof (rule map_cong [OF refl])
    fix b assume "b \<in> set bs"
    with p1 have b: "0 < b" by auto
    with p2 have "0 < e / b" by simp
    then have "(e / b) powr 1 = e / b" by (simp only: powr_one less_imp_le)
    moreover have "real_of_int (n - 1) / real_of_int (n - 1) = 1" using assms by simp
    ultimately show "b * (if n - 1 = 0 then 1 else (e / b) powr (of_int (n - 1) / of_int (n - 1))) = e"
      using assms b by (simp del: of_int_diff)
  qed
  then show "get_lr legacy (schedule_at ExponentialLR e n bs legacy (n - 1)) = Inr (map (\<lambda>b. e) bs)"
    by (simp only: exponential_at [OF assms p1 p2])
next
  fix i
  assume pos: "(\<forall>b \<in> set bs. 0 < b) \<and> 0 < e" and i: "0 < i \<and> i < n - 1"
  then have p1: "\<forall>b \<in> set bs. 0 < b" and p2: "0 < e" by simp_all
  let ?r = "real_of_int i / real_of_int (n - 1)"
  let ?vs = "map (\<lambda>b. b * (if i = 0 then 1 else (e / b) powr ?r)) bs"
  have r: "0 < ?r" "?r < 1" using i by simp_all
  have "\<forall>k < length bs. bs ! k < e \<longrightarrow> bs ! k < ?vs ! k \<and> ?vs ! k < e"
  proof (intro allI impI)
    fix k assume k: "k < length bs" and lt: "bs ! k < e"
    from k p1 have "0 < bs ! k" by simp
    from powr_strictly_between [OF this lt r] k i
    show "bs ! k < ?vs ! k \<and> ?vs ! k < e" by simp
  qed
  then show "\<exists>vs. get_lr legacy (schedule_at ExponentialLR e n bs legacy i) = Inr vs
                \<and> length vs = length bs
                \<and> (\<forall>k < length bs. bs ! k < e \<longrightarrow> bs ! k < vs ! k \<and> vs ! k < e)"
    by (simp only: exponential_at [OF assms p1 p2]) (intro exI [of _ ?vs], simp)
qed

theorem schedule_endpoints_witness:
  "(1::int) < 3
   \<and> get_lr False (schedule_at LinearLR 10 3 [1/10, 1] False 0) = Inr [1/10, 1]
   \<and> get_lr False (schedule_at LinearLR 10 3 [1/10, 1] False 2) = Inr [10, 10]
   \<and> get_lr False (schedule_at ExponentialLR 10 3 [1/10, 1] False 0) = Inr [1/10, 1]
   \<and> get_lr False (schedule_at ExponentialLR 10 3 [1/10, 1] False 2) = Inr [10, 10]
   \<and> (\<exists>vs. get_lr False (schedule_at ExponentialLR 10 3 [1/10, 1] False 1) = Inr vs
         \<and> 1/10 < vs ! 0 \<and> vs ! 0 < 10 \<and> 1 < vs ! 1 \<and> vs ! 1 < 10)"
proof -
  have n: "(1::int) < 3" by simp
  note T = schedule_endpoints [OF n, where legacy = False and e = 10 and bs = "[1/10, 1]"]
  have pos: "(\<forall>b \<in> set [1/10, 1::real]. 0 < b) \<and> (0::real) < 10" by simp
  from T pos have "\<exists>vs. get_lr False (schedule_at ExponentialLR 10 3 [1/10, 1] False 1) = Inr vs
      \<and> length vs = length [1/10, 1::real]
      \<and> (\<forall>k < length [1/10, 1::real].
            [1/10, 1::real] ! k < 10 \<longrightarrow> [1/10, 1::real] ! k < vs ! k \<and> vs ! k < 10)"
    by simp
  then obtain vs where vs: "get_lr False (schedule_at ExponentialLR 10 3 [1/10, 1] False 1) = Inr vs"
    and b: "\<forall>k < length [1/10, 1::real].
              [1/10, 1::real] ! k < 10 \<longrightarrow> [1/10, 1::real] ! k < vs ! k \<and> vs ! k < 10"
    by blast
  from b have "1/10 < vs ! 0 \<and> vs ! 0 < 10" by (auto dest: spec [of _ 0])
  moreover from b have "1 < vs ! 1 \<and> vs ! 1 < 10" by (auto dest: spec [of _ 1])
  ultimately show ?thesis using T pos vs n by simp
qed

section \<open>Properties of the analyzer\<close>

lemma slice_from: "0 \<le> a \<Longrightarrow> py_slice xs (Some a) None = drop (nat a) xs"
  by (simp add: py_slice_def slice_bound_def min_def Let_def)

lemma slice_from_to_end:
  "0 \<le> a \<Longrightarrow> 0 < b \<Longrightarrow> py_slice xs (Some a) (Some (- b)) = drop (nat a) (take (length xs - nat b) xs)"
proof -
  assume a: "0 \<le> a" and b: "0 < b"
  have "nat (max (- b + int (length xs)) 0) = length xs - nat b" using b by (simp add: max_def) linarith
  then show ?thesis using a b by (simp add: py_slice_def slice_bound_def min_def Let_def)
qed

lemma trimmed_drop_take:
  "0 \<le> a \<Longrightarrow> 0 \<le> b \<Longrightarrow>
   trimmed a b xs = (if b = 0 then drop (nat a) xs else drop (nat a) (take (length xs - nat b) xs))"
  by (simp add: trimmed_def slice_from slice_from_to_end)

lemma drop_last_records:
  "rev (drop k (rev (drop a xs))) = drop a (take (length xs - k) xs)"
proof -
  have "rev (drop k (rev (drop a xs))) = take (length xs - a - k) (drop a xs)"
    by (simp add: drop_rev)
  also have "\<dots> = drop a (take (length xs - a - k + a) xs)"
    by (simp only: take_drop)
  also have "\<dots> = drop a (take (length xs - k) xs)"
  proof (cases "a + k \<le> length xs")
    case True
    then have "length xs - a - k + a = length xs - k" by simp
    then show ?thesis by simp
  next
    case False
    then show ?thesis by simp
  qed
  finally show ?thesis .
qed

lemma trimmed_spec: "0 \<le> a \<Longrightarrow> 0 \<le> b \<Longrightarrow> trimmed a b xs = trim_spec (nat a) (nat b) xs"
  by (simp add: trimmed_drop_take trim_spec_def Let_def drop_last_records)

lemma length_trimmed: "0 \<le> a \<Longrightarrow> 0 \<le> b \<Longrightarrow> length (trimmed a b xs) = length xs - nat a - nat b"
  by (auto simp add: trimmed_drop_take)

lemma first_index_Min:
  fixes g :: "real list"
  shows "g \<noteq> [] \<Longrightarrow> first_index (Min (set g)) g < length g"
proof -
  have "v \<in> set g \<Longrightarrow> first_index v g < length g" for v :: real
    by (induction g) auto
  moreover assume "g \<noteq> []"
  then have "Min (set g) \<in> set g" by (intro Min_in) simp_all
  ultimately show ?thesis by blast
qed


lemma steepest_short: "length losses < 2 \<Longrightarrow> steepest losses = Inr None"
  by (simp add: steepest_def np_gradient_def)

lemma steepest_bound: "steepest losses = Inr (Some i) \<Longrightarrow> i < length losses"
proof -
  assume a: "steepest losses = Inr (Some i)"
  show ?thesis
  proof (cases "length losses < 2")
    case True then show ?thesis using a by (simp add: steepest_short)
  next
    case False
    then have "losses \<noteq> []" by auto
    with False obtain g where g: "np_gradient losses = Inr g" "length g = length losses" "g \<noteq> []"
      by (simp add: np_gradient_def Let_def)
    with a have "i = first_index (Min (set g)) g" by (simp add: steepest_def np_argmin_def)
    with first_index_Min [OF g(3)] g(2) show ?thesis by simp
  qed
qed

lemma steepest_total: "\<exists>r. steepest losses = Inr r"
  by (auto simp add: steepest_def np_gradient_def np_argmin_def Let_def)

lemma mark_suggestion_total:
  "length lrs = length losses \<Longrightarrow> \<exists>r ax'. mark_suggestion lrs losses ax = Inr (r, ax') \<and> lines ax' = lines ax
     \<and> steepest losses = Inr r"
proof -
  assume l: "length lrs = length losses"
  obtain r where r: "steepest losses = Inr r" using steepest_total by blast
  show ?thesis
  proof (cases r)
    case None then show ?thesis using r by (simp add: mark_suggestion_def)
  next
    case (Some i)
    with r steepest_bound have "i < length losses" by blast
    then show ?thesis using r Some l by (simp add: mark_suggestion_def index_def)
  qed
qed

lemma mark_suggestion_lines:
  "mark_suggestion lrs losses ax = Inr (r, ax3) \<Longrightarrow> lines ax3 = lines ax"
  by (cases "steepest losses")
     (auto simp add: mark_suggestion_def split: option.splits sum.splits)

lemma plot_lines:
  assumes "plot F a b log_lr show_lr ax suggest_lr = Inr (ax', s)"
  shows "lines ax' = lines (case ax of None \<Rightarrow> new_axes | Some x \<Rightarrow> x)
            @ [(trimmed a b (history_lr F), trimmed a b (history_loss F))]"
proof -
  let ?ax1 = "case ax of None \<Rightarrow> new_axes | Some x \<Rightarrow> x"
  let ?L = "trimmed a b (history_lr F)"
  let ?M = "trimmed a b (history_loss F)"
  let ?ax2 = "?ax1\<lparr>lines := lines ?ax1 @ [(?L, ?M)]\<rparr>"
  let ?m = "if suggest_lr then mark_suggestion ?L ?M ?ax2 else Inr (None, ?ax2)"
  have ok: "\<not> a < 0" "\<not> b < 0" "show_lr \<noteq> Some PyOther"
    using assms by (simp_all add: plot_def split: if_splits)
  show ?thesis
  proof (cases ?m)
    case (Inl e)
    then show ?thesis using assms ok by (simp add: plot_def Let_def)
  next
    case (Inr p)
    obtain r ax3 where p: "p = (r, ax3)" by (cases p)
    have l3: "lines ax3 = lines ?ax2"
    proof (cases suggest_lr)
      case True
      with Inr p show ?thesis by (simp add: mark_suggestion_lines)
    next
      case False
      with Inr p show ?thesis by auto
    qed
    let ?ax6 = "case show_lr of
         Some (PyFloat x) \<Rightarrow>
           (if log_lr then ax3\<lparr>xscale := ''log''\<rparr> else ax3)
             \<lparr>xlabel := ''Learning rate'', ylabel := ''Loss'',
              vlines := vlines ((if log_lr then ax3\<lparr>xscale := ''log''\<rparr> else ax3)
                  \<lparr>xlabel := ''Learning rate'', ylabel := ''Loss''\<rparr>) @ [x]\<rparr>
       | _ \<Rightarrow> (if log_lr then ax3\<lparr>xscale := ''log''\<rparr> else ax3)
             \<lparr>xlabel := ''Learning rate'', ylabel := ''Loss''\<rparr>"
    have l6: "lines ?ax6 = lines ax3"
      by (simp split: option.splits py_value.splits)
    have "ax' = ?ax6"
      using assms ok Inr p
      by (simp add: plot_def Let_def split: option.splits if_splits sum.splits)
    then show ?thesis using l6 l3 by simp
  qed
qed

lemma plot_total:
  assumes "0 \<le> a" "0 \<le> b" "show_lr \<noteq> Some PyOther" "length (history_lr F) = length (history_loss F)"
  shows "\<exists>ax' s. plot F a b log_lr show_lr ax suggest_lr = Inr (ax', s)"
proof -
  have l: "length (trimmed a b (history_lr F)) = length (trimmed a b (history_loss F))"
    using assms by (simp add: length_trimmed)
  show ?thesis
  proof (cases suggest_lr)
    case False
    then show ?thesis using assms by (simp add: plot_def Let_def)
  next
    case True
    let ?ax2 = "(case ax of None \<Rightarrow> new_axes | Some x \<Rightarrow> x)
          \<lparr>lines := lines (case ax of None \<Rightarrow> new_axes | Some x \<Rightarrow> x)
             @ [(trimmed a b (history_lr F), trimmed a b (history_loss F))]\<rparr>"
    obtain r ax3 where m: "mark_suggestion (trimmed a b (history_lr F)) (trimmed a b (history_loss F)) ?ax2
        = Inr (r, ax3)" and st: "steepest (trimmed a b (history_loss F)) = Inr r"
      using mark_suggestion_total [OF l] by blast
    show ?thesis
    proof (cases r)
      case None
      then show ?thesis using assms True m by (simp add: plot_def Let_def)
    next
      case (Some i)
      with st steepest_bound l have "i < length (trimmed a b (history_lr F))" by metis
      then show ?thesis using assms True m Some by (simp add: plot_def Let_def index_def)
    qed
  qed
qed

text \<open>
  Claim C7. For skip counts that are not negative, the series that \<open>plot\<close> draws is the
  history from index \<open>skip_start\<close> on when \<open>skip_end\<close> is \<open>0\<close>, and that without its last
  \<open>skip_end\<close> records otherwise: the trimming of the spec, of length
  \<open>length - skip_start - skip_end\<close> (from a history of 20 records, \<open>skip_start = 5\<close> and
  \<open>skip_end = 3\<close> leave the 12 records from index 5 to index 16). A negative \<open>skip_start\<close> or
  \<open>skip_end\<close> raises \<^verbatim>\<open>ValueError\<close> and nothing is drawn. On a history whose two series
  have the same length \<open>plot\<close> returns.
\<close>

theorem plot_trims:
  "(skip_start < 0 \<longrightarrow>
      plot F skip_start skip_end log_lr show_lr ax suggest_lr
        = Inl (ValueError ''skip_start cannot be negative''))
 \<and> (0 \<le> skip_start \<and> skip_end < 0 \<longrightarrow>
      plot F skip_start skip_end log_lr show_lr ax suggest_lr
        = Inl (ValueError ''skip_end cannot be negative''))
 \<and> (0 \<le> skip_start \<and> 0 \<le> skip_end \<longrightarrow>
      trimmed skip_start skip_end xs = trim_spec (nat skip_start) (nat skip_end) xs
    \<and> trimmed skip_start skip_end xs
        = (if skip_end = 0 then drop (nat skip_start) xs
           else drop (nat skip_start) (take (length xs - nat skip_end) xs))
    \<and> length (trimmed skip_start skip_end xs) = length xs - nat skip_start - nat skip_end
    \<and> (\<forall>ax' s. plot F skip_start skip_end log_lr show_lr ax suggest_lr = Inr (ax', s) \<longrightarrow>
          lines ax' = lines (case ax of None \<Rightarrow> new_axes | Some x \<Rightarrow> x)
            @ [(trimmed skip_start skip_end (history_lr F),
                trimmed skip_start skip_end (history_loss F))])
    \<and> (show_lr \<noteq> Some PyOther \<and> length (history_lr F) = length (history_loss F) \<longrightarrow>
          (\<exists>ax' s. plot F skip_start skip_end log_lr show_lr ax suggest_lr = Inr (ax', s))))"
proof (intro conjI impI allI)
  show "skip_start < 0 \<Longrightarrow> plot F skip_start skip_end log_lr show_lr ax suggest_lr
        = Inl (ValueError ''skip_start cannot be negative'')"
    by (simp add: plot_def)
  show "0 \<le> skip_start \<and> skip_end < 0 \<Longrightarrow> plot F skip_start skip_end log_lr show_lr ax suggest_lr
        = Inl (ValueError ''skip_end cannot be negative'')"
    by (simp add: plot_def)
next
  assume h: "0 \<le> skip_start \<and> 0 \<le> skip_end"
  then show "trimmed skip_start skip_end xs = trim_spec (nat skip_start) (nat skip_end) xs"
    by (simp add: trimmed_spec)
  from h show "trimmed skip_start skip_end xs
        = (if skip_end = 0 then drop (nat skip_start) xs
           else drop (nat skip_start) (take (length xs - nat skip_end) xs))"
    by (simp only: trimmed_drop_take)
  from h show "length (trimmed skip_start skip_end xs) = length xs - nat skip_start - nat skip_end"
    by (simp add: length_trimmed)
next
  fix ax' s
  assume "plot F skip_start skip_end log_lr show_lr ax suggest_lr = Inr (ax', s)"
  then show "lines ax' = lines (case ax of None \<Rightarrow> new_axes | Some x \<Rightarrow> x)
            @ [(trimmed skip_start skip_end (history_lr F),
                trimmed skip_start skip_end (history_loss F))]"
    by (rule plot_lines)
next
  assume "0 \<le> skip_start \<and> 0 \<le> skip_end"
    and "show_lr \<noteq> Some PyOther \<and> length (history_lr F) = length (history_loss F)"
  then show "\<exists>ax' s. plot F skip_start skip_end log_lr show_lr ax suggest_lr = Inr (ax', s)"
    by (simp add: plot_total)
qed

lemma upt20: "[0..<20] = [0,1,2,3,4,5,6,7,8,9,10,11,12,13,14,15,16,17,18,19]"
  by (simp add: upt_rec)

theorem plot_trims_witness:
  "plot twenty (- 1) 3 True None None True = Inl (ValueError ''skip_start cannot be negative'')
 \<and> plot twenty 5 (- 3) True None None True = Inl (ValueError ''skip_end cannot be negative'')
 \<and> trimmed 5 3 (history_lr twenty) = map real [5..<17]
 \<and> length (trimmed 5 3 (history_lr twenty)) = 12
 \<and> trimmed 5 0 (history_lr twenty) = map real [5..<20]
 \<and> (\<exists>ax' s. plot twenty 5 3 True None None True = Inr (ax', s)
       \<and> lines ax' = [(map real [5..<17], map real (rev [3..<15]))])"
proof -
  have e: "history_lr twenty = map real [0..<20]" "history_loss twenty = map real (rev [0..<20])"
    by (simp_all add: twenty_def)
  have len: "length (history_lr twenty) = length (history_loss twenty)" by (simp add: e)
  note A = plot_trims [of "- 1" twenty 3 True None None True "history_lr twenty"]
  note B = plot_trims [of 5 twenty "- 3" True None None True "history_lr twenty"]
  note C = plot_trims [of 5 twenty 3 True None None True "history_lr twenty"]
  note C' = plot_trims [of 5 twenty 3 True None None True "history_loss twenty"]
  note D = plot_trims [of 5 twenty 0 True None None True "history_lr twenty"]
  have h53: "(0::int) \<le> 5 \<and> (0::int) \<le> 3" and h50: "(0::int) \<le> 5 \<and> (0::int) \<le> 0" by simp_all
  note C1 = C [THEN conjunct2, THEN conjunct2, THEN mp, OF h53, THEN conjunct2, THEN conjunct1]
  note C1' = C' [THEN conjunct2, THEN conjunct2, THEN mp, OF h53, THEN conjunct2, THEN conjunct1]
  note D1 = D [THEN conjunct2, THEN conjunct2, THEN mp, OF h50, THEN conjunct2, THEN conjunct1]
  have c1: "trimmed 5 3 (history_lr twenty) = map real [5..<17]"
    unfolding C1 by (simp add: e drop_map take_map drop_upt)
  have c2: "trimmed 5 3 (history_loss twenty) = map real (rev [3..<15])"
    unfolding C1' by (simp add: e drop_map take_map rev_map [symmetric] take_rev drop_rev drop_upt)
  have d: "trimmed 5 0 (history_lr twenty) = map real [5..<20]"
    unfolding D1 by (simp add: e drop_map)
  have a: "plot twenty (- 1) 3 True None None True = Inl (ValueError ''skip_start cannot be negative'')"
    by (rule A [THEN conjunct1, THEN mp]) simp
  have b: "plot twenty 5 (- 3) True None None True = Inl (ValueError ''skip_end cannot be negative'')"
    by (rule B [THEN conjunct2, THEN conjunct1, THEN mp]) simp
  have ok: "(None :: py_value option) \<noteq> Some PyOther
              \<and> length (history_lr twenty) = length (history_loss twenty)"
    using len by simp
  note C4 = C [THEN conjunct2, THEN conjunct2, THEN mp, OF h53, THEN conjunct2, THEN conjunct2,
                THEN conjunct2]
  from C4 [THEN conjunct2, THEN mp, OF ok]
  obtain ax' s where p: "plot twenty 5 3 True None None True = Inr (ax', s)"
    by blast
  from C4 [THEN conjunct1, THEN spec, THEN spec, THEN mp, OF p]
  have "lines ax' = lines new_axes @ [(trimmed 5 3 (history_lr twenty), trimmed 5 3 (history_loss twenty))]"
    by simp
  then have "lines ax' = [(map real [5..<17], map real (rev [3..<15]))]"
    by (simp only: c1 c2 new_axes_def axes.simps append_Nil)
  with p have ex: "\<exists>ax' s. plot twenty 5 3 True None None True = Inr (ax', s)
       \<and> lines ax' = [(map real [5..<17], map real (rev [3..<15]))]" by blast
  have l12: "length (trimmed 5 3 (history_lr twenty)) = 12" unfolding c1 by simp
  show ?thesis
    by (rule conjI [OF a conjI [OF b conjI [OF c1 conjI [OF l12 conjI [OF d ex]]]]])
qed

lemma upt3: "[0..<3] = [0, 1, 2]" by (simp add: upt_rec)

text \<open>
  Claim C8, at a history whose steepest gradient is at index \<open>0\<close>: the gradient of the
  losses \<open>[1, 1/2, 2/5]\<close> is least at index \<open>0\<close>, the learning rate there is \<open>1/1000\<close> and
  \<open>plot\<close> marks that point on the axes, but it returns the axes alone, without the
  suggested rate.
\<close>

theorem plot_misses_index_0:
  "np_gradient (history_loss steep_start) = Inr [- (1/2), - (3/10), - (1/10)]
 \<and> steepest (trimmed 0 0 (history_loss steep_start)) = Inr (Some 0)
 \<and> index (trimmed 0 0 (history_lr steep_start)) 0 = Inr (1/1000)
 \<and> plot steep_start 0 0 True None None True
     = Inr (\<lparr>lines = [([1/1000, 1/100, 1/10], [1, 1/2, 2/5])], markers = [(1/1000, 1)],
             legend = True, xscale = ''log'', xlabel = ''Learning rate'', ylabel = ''Loss'',
             vlines = []\<rparr>, None)"
proof -
  have g: "np_gradient [1, 1/2, 2/5] = Inr [- (1/2), - (3/10), - (1/10)]"
    by (simp add: np_gradient_def upt3)
  have s: "steepest [1, 1/2, 2/5] = Inr (Some 0)"
    by (simp add: steepest_def g np_argmin_def)
  have t: "trimmed 0 0 (history_loss steep_start) = [1, 1/2, 2/5]"
      "trimmed 0 0 (history_lr steep_start) = [1/1000, 1/100, 1/10]"
    by (simp_all add: trimmed_def py_slice_def slice_bound_def steep_start_def)
  show ?thesis
    using g s by (simp add: t plot_def mark_suggestion_def index_def new_axes_def) (simp add: steep_start_def)
qed

section \<open>Properties of the loop\<close>

lemma for_loop_snoc:
  "for_loop body (xs @ [i]) st =
     (case for_loop body xs st of (Inr Continue, st') \<Rightarrow> body i st' | r \<Rightarrow> r)"
  by (induction xs arbitrary: st) (simp_all split: prod.splits sum.splits flow.splits)

lemma for_loop_upt_rule:
  assumes body: "\<And>i st r st'. i < n \<Longrightarrow> P i st \<Longrightarrow> body i st = (r, st') \<Longrightarrow>
                   (r = Inr Continue \<longrightarrow> P (Suc i) st') \<and> (r \<noteq> Inr Continue \<longrightarrow> Q r st')"
    and fin: "\<And>st. P n st \<Longrightarrow> Q (Inr Continue) st"
    and "P i st" and "i \<le> n" and "for_loop body [i..<n] st = (r, st')"
  shows "Q r st'"
  using assms(3-5)
proof (induction "n - i" arbitrary: i st)
  case 0
  then have "i = n" by simp
  with 0 fin show ?case by simp
next
  case (Suc d)
  then have lt: "i < n" by simp
  then have u: "[i..<n] = i # [Suc i..<n]" by (simp add: upt_conv_Cons)
  obtain r1 st1 where b: "body i st = (r1, st1)" by (cases "body i st")
  show ?case
  proof (cases "r1 = Inr Continue")
    case True
    with body [OF lt Suc.prems(1) b] have p: "P (Suc i) st1" by simp
    from Suc.prems(3) u b True have l: "for_loop body [Suc i..<n] st1 = (r, st')" by simp
    from Suc.hyps(2) have "d = n - Suc i" by simp
    from Suc.hyps(1) [OF this p _ l] lt show ?thesis by simp
  next
    case False
    with body [OF lt Suc.prems(1) b] have q: "Q r1 st1" by simp
    from Suc.prems(3) u b False have "(r, st') = (r1, st1)"
      by (simp split: sum.splits flow.splits)
    with q show ?thesis by simp
  qed
qed

lemma update_lr_loss_side:
  "update_lr S F = (r, F') \<Longrightarrow> history_loss F' = history_loss F \<and> best_loss F' = best_loss F"
  by (auto simp add: update_lr_def Let_def split: sum.splits list.splits prod.splits)

lemma update_lr_length:
  "update_lr S F = (Inr S', F') \<Longrightarrow> length (history_lr F') = Suc (length (history_lr F))"
  by (auto simp add: update_lr_def Let_def split: sum.splits list.splits prod.splits)

lemma track_loss_first: "track_loss sf 0 loss F = Inr (loss, F\<lparr>best_loss := Some loss\<rparr>)"
  by (simp add: track_loss_def)

lemma track_loss_later:
  assumes "0 < i" "history_loss F \<noteq> []" "best_loss F = Some b"
  shows "track_loss sf i loss F =
           Inr (if 0 < sf then sf * loss + (1 - sf) * last (history_loss F) else loss,
                F\<lparr>best_loss := Some (min (if 0 < sf then sf * loss + (1 - sf) * last (history_loss F)
                                          else loss) b)\<rparr>)"
  using assms by (simp add: track_loss_def min_def)

lemma record_loss_Some:
  "best_loss F = Some b \<Longrightarrow>
   record_loss th l F = (Inr (if th * b < l then Break else Continue),
                         F\<lparr>history_loss := history_loss F @ [l]\<rparr>)"
  by (simp add: record_loss_def)

lemma body_fetch_fail:
  "fetch_loss tr va w = (Inl e, w1) \<Longrightarrow> iteration_body tr va sf th i (S, F, w) = (Inl e, S, F, w1)"
  by (simp add: iteration_body_def)

lemma body_update_fail:
  "fetch_loss tr va w = (Inr loss, w1) \<Longrightarrow> update_lr S F = (Inl e, F1) \<Longrightarrow>
   iteration_body tr va sf th i (S, F, w) = (Inl e, S, F1, w1)"
  by (simp add: iteration_body_def)

lemma body_step:
  assumes len: "length (history_loss F) = i"
    and b0: "i = 0 \<longrightarrow> best_loss F = None"
    and b1: "0 < i \<longrightarrow> best_loss F = Some (Min (set (history_loss F)))"
    and fetch: "fetch_loss tr va w = (Inr loss, w1)"
    and upd: "update_lr S F = (Inr S', F2)"
    and l1: "l1 = (if i = 0 then loss
                   else if 0 < sf then sf * loss + (1 - sf) * last (history_loss F) else loss)"
  shows "iteration_body tr va sf th i (S, F, w) =
           (Inr (if th * Min (set (history_loss F @ [l1])) < l1 then Break else Continue),
            S',
            F2\<lparr>best_loss := Some (Min (set (history_loss F @ [l1]))),
               history_loss := history_loss F @ [l1]\<rparr>,
            w1)"
proof -
  from update_lr_loss_side [OF upd]
  have h2: "history_loss F2 = history_loss F" and bl2: "best_loss F2 = best_loss F" by simp_all
  show ?thesis
  proof (cases "i = 0")
    case True
    with len have "history_loss F = []" by simp
    with True l1 fetch upd h2 show ?thesis
      by (simp add: iteration_body_def track_loss_first record_loss_Some)
  next
    case False
    with len have ne: "history_loss F2 \<noteq> []" using h2 by auto
    from False b1 bl2 have b: "best_loss F2 = Some (Min (set (history_loss F)))" by simp
    from False have pos: "0 < i" by simp
    have m: "Min (set (history_loss F @ [l1])) = min l1 (Min (set (history_loss F)))"
      using ne h2 by (simp add: Min_insert)
    show ?thesis
      using fetch upd False l1 h2 m
      by (simp add: iteration_body_def track_loss_later [OF pos ne b] record_loss_Some)
  qed
qed


lemma recorded_as_snoc:
  assumes rec: "recorded_as tr va sf w0 H"
    and raw: "raw_loss tr va w0 (length H) = Inr raw"
    and sf: "0 \<le> sf"
    and l1: "l1 = (if length H = 0 then raw
                   else if 0 < sf then sf * raw + (1 - sf) * last H else raw)"
  shows "recorded_as tr va sf w0 (H @ [l1])"
  unfolding recorded_as_def
proof (intro allI impI)
  fix i assume "i < length (H @ [l1])"
  then consider "i < length H" | "i = length H" by fastforce
  then show "case raw_loss tr va w0 i of Inl e \<Rightarrow> False
             | Inr raw \<Rightarrow> (H @ [l1]) ! i =
                 (if i = 0 \<or> sf = 0 then raw
                  else sf * raw + (1 - sf) * (H @ [l1]) ! (i - 1))"
  proof cases
    case 1
    then have "i - 1 < length H" by arith
    with 1 have "(H @ [l1]) ! i = H ! i" "(H @ [l1]) ! (i - 1) = H ! (i - 1)"
      by (simp_all add: nth_append)
    note eqs = this
    from rec 1 have "case raw_loss tr va w0 i of Inl e \<Rightarrow> False
        | Inr raw \<Rightarrow> H ! i = (if i = 0 \<or> sf = 0 then raw
                                  else sf * raw + (1 - sf) * H ! (i - 1))"
      by (simp add: recorded_as_def)
    then show ?thesis unfolding eqs by (cases "raw_loss tr va w0 i") simp_all
  next
    case 2
    show ?thesis
    proof (cases "i = 0")
      case True
      with 2 raw l1 show ?thesis by simp
    next
      case False
      with 2 have "H \<noteq> []" by auto
      then have "last H = H ! (i - 1)" using 2 by (simp add: last_conv_nth)
      moreover have "(H @ [l1]) ! (i - 1) = H ! (i - 1)" using 2 False by (simp add: nth_append)
      ultimately show ?thesis using 2 raw l1 sf False by (auto simp add: nth_append)
    qed
  qed
qed

lemma diverged_snoc_old: "k < length H \<Longrightarrow> diverged th (H @ [l]) k = diverged th H k"
  by (simp add: diverged_def nth_append)

lemma diverged_snoc_new: "diverged th (H @ [l]) (length H) = (th * Min (set (H @ [l])) < l)"
  by (simp add: diverged_def)

lemma loss_inv_step:
  assumes sf: "0 \<le> sf" and lt: "i < n"
    and inv: "loss_inv tr va sf th w0 i st"
    and body: "iteration_body tr va sf th i st = (r, st')"
  shows "(r = Inr Continue \<longrightarrow> loss_inv tr va sf th w0 (Suc i) st')
       \<and> (r \<noteq> Inr Continue \<longrightarrow> loss_post tr va sf th w0 n r st')"
proof -
  obtain S F w where st: "st = (S, F, w)" by (cases st)
  let ?H = "history_loss F"
  from inv st have len: "length ?H = i" and lenlr: "length (history_lr F) = i"
    and w: "w = (advance tr va ^^ i) w0"
    and b0: "i = 0 \<longrightarrow> best_loss F = None"
    and b1: "0 < i \<longrightarrow> best_loss F = Some (Min (set ?H))"
    and rec: "recorded_as tr va sf w0 ?H"
    and nd: "\<forall>k < i. \<not> diverged th ?H k"
    by (simp_all add: loss_inv_def)
  have base: "recorded_as tr va sf w0 ?H \<and> (?H = [] \<longrightarrow> best_loss F = None)
      \<and> (?H \<noteq> [] \<longrightarrow> best_loss F = Some (Min (set ?H))) \<and> length ?H \<le> n
      \<and> (\<forall>k. Suc k < length ?H \<longrightarrow> \<not> diverged th ?H k)"
    using len b0 b1 rec nd lt by auto
  obtain x w1 where f: "fetch_loss tr va w = (x, w1)" by (cases "fetch_loss tr va w")
  show ?thesis
  proof (cases x)
    case (Inl e)
    with f body st have "r = Inl e" "st' = (S, F, w1)" by (simp_all add: body_fetch_fail)
    with base show ?thesis by (simp add: loss_post_def)
  next
    case (Inr loss)
    with f have f': "fetch_loss tr va w = (Inr loss, w1)" by simp
    then have raw: "raw_loss tr va w0 (length ?H) = Inr loss" and w1: "w1 = (advance tr va ^^ Suc i) w0"
      using w len by (simp_all add: raw_loss_def advance_def)
    obtain y F2 where u: "update_lr S F = (y, F2)" by (cases "update_lr S F")
    show ?thesis
    proof (cases y)
      case (Inl e)
      with u f' body st have "r = Inl e" "st' = (S, F2, w1)" by (simp_all add: body_update_fail)
      moreover from update_lr_loss_side [OF u]
      have "history_loss F2 = ?H" "best_loss F2 = best_loss F" by simp_all
      ultimately show ?thesis using base by (simp add: loss_post_def)
    next
      case (Inr S')
      with u have u': "update_lr S F = (Inr S', F2)" by simp
      define l1 where "l1 = (if i = 0 then loss
                   else if 0 < sf then sf * loss + (1 - sf) * last ?H else loss)"
      let ?H' = "?H @ [l1]"
      from body_step [OF len b0 b1 f' u' l1_def, of th] body st
      have r: "r = Inr (if th * Min (set ?H') < l1 then Break else Continue)"
        and st': "st' = (S', F2\<lparr>best_loss := Some (Min (set ?H')), history_loss := ?H'\<rparr>, w1)"
        by simp_all
      have rec': "recorded_as tr va sf w0 ?H'"
        using recorded_as_snoc [OF rec raw sf] l1_def len by simp
      have nd': "\<forall>k < i. \<not> diverged th ?H' k"
        using nd len by (simp add: diverged_snoc_old)
      have dv: "diverged th ?H' i = (th * Min (set ?H') < l1)"
        using diverged_snoc_new [of th ?H l1] len by simp
      have lr2: "length (history_lr F2) = Suc i"
        using update_lr_length [OF u'] lenlr by simp
      show ?thesis
      proof (cases "th * Min (set ?H') < l1")
        case True
        with r have "r = Inr Break" by simp
        moreover have "loss_post tr va sf th w0 n (Inr Break) st'"
          using st' rec' nd' dv True lr2 len lt w1 by (simp add: loss_post_def)
        ultimately show ?thesis by simp
      next
        case False
        with r have "r = Inr Continue" by simp
        moreover have "loss_inv tr va sf th w0 (Suc i) st'"
          using st' rec' nd' dv False lr2 len w1 by (simp add: loss_inv_def less_Suc_eq)
        ultimately show ?thesis by simp
      qed
    qed
  qed
qed

lemma loss_inv_final:
  "loss_inv tr va sf th w0 n st \<Longrightarrow> loss_post tr va sf th w0 n (Inr Continue) st"
  by (cases st) (auto simp add: loss_inv_def loss_post_def)

lemma loss_side_loop:
  assumes "0 \<le> sf" and "loss_inv tr va sf th w0 i st" and "i \<le> n"
    and "for_loop (iteration_body tr va sf th) [i..<n] st = (r, st')"
  shows "loss_post tr va sf th w0 n r st'"
  using loss_inv_step [OF assms(1)] loss_inv_final assms(2-4)
  by (rule for_loop_upt_rule [where P = "loss_inv tr va sf th w0"
        and Q = "loss_post tr va sf th w0 n"])

section \<open>Properties of the preparation\<close>

lemma check_groups_eq:
  "check_groups gs =
     (if \<exists>g \<in> set gs. initial_lr g \<noteq> None
      then Inl (RuntimeError ''Optimizer already has a scheduler attached to it'')
      else Inr ())"
  by (induction gs) auto

lemma comprehension_length: "comprehension f xs = Inr ys \<Longrightarrow> length ys = length xs"
  by (induction xs arbitrary: ys) (auto split: sum.splits)

lemma get_lr_length: "get_lr legacy S = Inr vs \<Longrightarrow> length vs = length (base_lrs S)"
  by (auto simp add: get_lr_def linear_get_lr_def exponential_get_lr_def
           split: policy.splits sum.splits dest: comprehension_length)

lemma assign_lrs_lr: "length vs = length gs \<Longrightarrow> map lr (assign_lrs gs vs) = vs"
  by (induction gs vs rule: assign_lrs.induct) auto

lemma assign_lrs_initial: "map initial_lr (assign_lrs gs vs) = map initial_lr gs"
  by (induction gs vs rule: assign_lrs.induct) auto

lemma assign_lrs_length: "length (assign_lrs gs vs) = length gs"
  by (induction gs vs rule: assign_lrs.induct) auto

lemma markers_map: "(\<forall>g \<in> set gs. initial_lr g \<noteq> None) \<longleftrightarrow> None \<notin> set (map initial_lr gs)"
  by (induction gs) auto

lemma get_lr_first:
  assumes "1 < n" and "get_lr False (schedule_at p e n bs False 0) = Inr vs"
  shows "vs = bs"
proof (cases p)
  case LinearLR
  with assms show ?thesis by (simp add: linear_at)
next
  case ExponentialLR
  have c: "comprehension
             (\<lambda>b. case py_div e b of Inl x \<Rightarrow> Inl x
                   | Inr q \<Rightarrow> (case py_pow q 0 of Inl x \<Rightarrow> Inl x | Inr p \<Rightarrow> Inr (b * p))) xs = Inr ys
           \<Longrightarrow> ys = xs" for xs ys
    by (induction xs arbitrary: ys) (auto simp add: py_div_def py_pow_def split: sum.splits if_splits)
  from assms ExponentialLR show ?thesis
    by (simp add: get_lr_def exponential_get_lr_def ratio_at c)
qed

lemma get_lr_first_linear:
  "1 < n \<Longrightarrow> get_lr False (schedule_at LinearLR e n bs False 0) = Inr bs"
  by (simp add: linear_at)

lemma get_lr_first_exponential:
  assumes "1 < n" and "\<forall>b \<in> set bs. b \<noteq> 0"
  shows "get_lr False (schedule_at ExponentialLR e n bs False 0) = Inr bs"
proof -
  have "comprehension
             (\<lambda>b. case py_div e b of Inl x \<Rightarrow> Inl x
                   | Inr q \<Rightarrow> (case py_pow q 0 of Inl x \<Rightarrow> Inl x | Inr p \<Rightarrow> Inr (b * p))) bs
        = Inr (map (\<lambda>b. b) bs)"
    using assms(2) by (intro comprehension_total) (simp add: py_div_def py_pow_def)
  with assms(1) show ?thesis by (simp add: get_lr_def exponential_get_lr_def ratio_at)
qed

lemma scheduler_step_at:
  "scheduler_step (schedule_at p e n bs False k) groups =
     (case get_lr False (schedule_at p e n bs False (k + 1)) of
        Inl err \<Rightarrow> Inl err
      | Inr values \<Rightarrow> Inr (schedule_at p e n bs False (k + 1), assign_lrs groups values))"
proof -
  have "(schedule_at p e n bs False k)\<lparr>last_epoch := last_epoch (schedule_at p e n bs False k) + 1\<rparr>
        = schedule_at p e n bs False (k + 1)"
    by (simp add: schedule_at_def epoch_of_iteration_def)
  then show ?thesis by (simp add: scheduler_step_def Let_def)
qed

lemma initial_lr_of_setdefault: "initial_lr_of (setdefault_initial_lr g) = initial_lr_of g"
  by (simp add: setdefault_initial_lr_def initial_lr_of_def)

lemma scheduler_init_eq:
  "scheduler_init p e n groups =
     (if n \<le> 1 then (Inl (ValueError ''`num_iter` must be larger than 1''), groups)
      else (case get_lr False (schedule_at p e n (map initial_lr_of groups) False 0) of
              Inl err \<Rightarrow> (Inl err, map setdefault_initial_lr groups)
            | Inr values \<Rightarrow>
                (Inr (schedule_at p e n (map initial_lr_of groups) False 0),
                 assign_lrs (map setdefault_initial_lr groups) values)))"
proof -
  have "\<lparr>policy = p, end_lr = e, num_iter = n,
         base_lrs = map initial_lr_of (map setdefault_initial_lr groups), last_epoch = - 1\<rparr>
        = schedule_at p e n (map initial_lr_of groups) False (- 1)"
    by (simp add: schedule_at_def epoch_of_iteration_def initial_lr_of_setdefault comp_def)
  then show ?thesis
    by (simp add: scheduler_init_def Let_def scheduler_step_at split: sum.splits)
qed

lemma apply_start_lr_fields:
  assumes "apply_start_lr a F = Inr F1"
  shows "history_lr F1 = history_lr F" "history_loss F1 = history_loss F"
    "best_loss F1 = best_loss F"
    "map initial_lr (param_groups F1) = map initial_lr (param_groups F)"
  using assms
  by (auto simp add: apply_start_lr_def set_learning_rate_def Let_def assign_lrs_initial
           split: option.splits if_splits)

lemma apply_start_lr_falsy:
  "(case a of None \<Rightarrow> True | Some x \<Rightarrow> \<not> truthy x) \<Longrightarrow> apply_start_lr a F = Inr F"
  by (simp add: apply_start_lr_def split: option.splits)


lemma prepare_eq:
  "prepare a e n m sf F =
     (let F0 = F\<lparr>history_lr := [], history_loss := [], best_loss := None\<rparr>
      in if \<exists>g \<in> set (param_groups F). initial_lr g \<noteq> None
         then (Inl (RuntimeError ''Optimizer already has a scheduler attached to it''), F0)
         else
           (case apply_start_lr a F0 of
              Inl err \<Rightarrow> (Inl err, F0)
            | Inr F1 \<Rightarrow>
                if lower m \<noteq> ''exp'' \<and> lower m \<noteq> ''linear''
                then (Inl (ValueError (''expected one of (exp, linear), got '' @ m)), F1)
                else
                  (case scheduler_init (if lower m = ''exp'' then ExponentialLR else LinearLR)
                          e n (param_groups F1) of
                     (Inl err, groups) \<Rightarrow> (Inl err, F1\<lparr>param_groups := groups\<rparr>)
                   | (Inr S, groups) \<Rightarrow>
                       if sf < 0 \<or> 1 \<le> sf
                       then (Inl (ValueError ''smooth_f is outside the range [0, 1[''),
                             F1\<lparr>param_groups := groups\<rparr>)
                       else (Inr S, F1\<lparr>param_groups := groups\<rparr>))))"
  by (simp add: prepare_def check_for_scheduler_def check_groups_eq Let_def
           split: sum.splits prod.splits)

lemma unmarked_base:
  "\<forall>g \<in> set gs. initial_lr g = None \<Longrightarrow> map initial_lr_of gs = map lr gs"
  by (induction gs) (simp_all add: initial_lr_of_def)

lemma lr_setdefault: "map lr (map setdefault_initial_lr gs) = map lr gs"
  by (induction gs) (simp_all add: setdefault_initial_lr_def)

lemma marked_setdefault: "\<forall>g \<in> set (map setdefault_initial_lr gs). initial_lr g \<noteq> None"
  by (induction gs) (simp_all add: setdefault_initial_lr_def)

lemma marked_assign:
  "\<forall>g \<in> set gs. initial_lr g \<noteq> None \<Longrightarrow> \<forall>g \<in> set (assign_lrs gs vs). initial_lr g \<noteq> None"
  by (induction gs vs rule: assign_lrs.induct) simp_all

lemma apply_start_lr_unmarked:
  assumes "apply_start_lr a F = Inr F1" and "\<forall>g \<in> set (param_groups F). initial_lr g = None"
  shows "\<forall>g \<in> set (param_groups F1). initial_lr g = None"
proof -
  from assms(2) have "\<forall>x \<in> set (map initial_lr (param_groups F)). x = None" by simp
  then have "\<forall>x \<in> set (map initial_lr (param_groups F1)). x = None"
    by (simp only: apply_start_lr_fields(4) [OF assms(1)])
  then show ?thesis by simp
qed

text \<open>What a successful preparation leaves.\<close>

lemma prepare_Inr:
  assumes "prepare a e n m sf F = (Inr S, F')"
  shows "\<exists>p F1.
      (\<forall>g \<in> set (param_groups F). initial_lr g = None)
    \<and> apply_start_lr a (F\<lparr>history_lr := [], history_loss := [], best_loss := None\<rparr>) = Inr F1
    \<and> (lower m = ''exp'' \<or> lower m = ''linear'')
    \<and> p = (if lower m = ''exp'' then ExponentialLR else LinearLR)
    \<and> 1 < n \<and> 0 \<le> sf \<and> sf < 1
    \<and> S = schedule_at p e n (map lr (param_groups F1)) False 0
    \<and> get_lr False S = Inr (map lr (param_groups F1))
    \<and> map lr (param_groups F') = map lr (param_groups F1)
    \<and> (\<forall>g \<in> set (param_groups F'). initial_lr g \<noteq> None)
    \<and> history_lr F' = [] \<and> history_loss F' = [] \<and> best_loss F' = None"
proof -
  let ?F0 = "F\<lparr>history_lr := [], history_loss := [], best_loss := None\<rparr>"
  let ?p = "if lower m = ''exp'' then ExponentialLR else LinearLR"
  from assms have um: "\<forall>g \<in> set (param_groups F). initial_lr g = None"
    by (auto simp add: prepare_eq Let_def split: if_splits)
  with assms obtain F1 where a: "apply_start_lr a ?F0 = Inr F1"
    by (cases "apply_start_lr a ?F0") (auto simp add: prepare_eq Let_def)
  from assms um a have mode: "lower m = ''exp'' \<or> lower m = ''linear''"
    by (auto simp add: prepare_eq Let_def split: if_splits)
  obtain x gs where i: "scheduler_init ?p e n (param_groups F1) = (x, gs)"
    by (cases "scheduler_init ?p e n (param_groups F1)")
  from assms um a mode i have x: "x = Inr S" and sf: "0 \<le> sf" "sf < 1"
    and F': "F' = F1\<lparr>param_groups := gs\<rparr>"
    by (cases x; auto simp add: prepare_eq Let_def split: if_splits)+
  from apply_start_lr_unmarked [OF a] um
  have um1: "\<forall>g \<in> set (param_groups F1). initial_lr g = None" by simp
  let ?bs = "map lr (param_groups F1)"
  from i x have n: "1 < n"
    by (auto simp add: scheduler_init_eq split: if_splits)
  with i x obtain vs where g: "get_lr False (schedule_at ?p e n ?bs False 0) = Inr vs"
    and S: "S = schedule_at ?p e n ?bs False 0"
    and gs: "gs = assign_lrs (map setdefault_initial_lr (param_groups F1)) vs"
    by (cases "get_lr False (schedule_at ?p e n ?bs False 0)")
       (auto simp add: scheduler_init_eq unmarked_base [OF um1])
  from get_lr_first [OF n g] have vs: "vs = ?bs" .
  have "map lr gs = ?bs" unfolding gs vs by (rule assign_lrs_lr) simp
  moreover have "\<forall>g \<in> set gs. initial_lr g \<noteq> None"
    unfolding gs by (rule marked_assign) (rule marked_setdefault)
  moreover have "history_lr F' = [] \<and> history_loss F' = [] \<and> best_loss F' = None"
    using F' apply_start_lr_fields [OF a] by simp
  ultimately show ?thesis
    using um a mode n sf S g vs F' by (intro exI [of _ ?p] exI [of _ F1]) simp
qed

section \<open>Runs of the examples\<close>

lemmas run_defs = range_test_def prepare_def check_for_scheduler_def apply_start_lr_def
  set_learning_rate_def scheduler_init_def scheduler_step_def get_lr_def linear_get_lr_def
  ratio_def py_div_def iteration_body_def fetch_loss_def update_lr_def track_loss_def
  record_loss_def setdefault_initial_lr_def initial_lr_of_def lower_def lower_char_def Let_def

lemma upt4: "[0..<4] = [0, 1, 2, 3]" by (simp add: upt_rec)
lemma upt2: "[0..<2] = [0, 1]" by (simp add: upt_rec)

lemma first_run:
  "range_test ex_train None None 1 4 ''linear'' (1/2) 5 fresh 0 = (Inr (), used, 3)"
  by (simp add: run_defs fresh_def used_def ex_train_def upt4)

lemma second_run:
  "range_test ex_train None None 1 4 ''linear'' (1/2) 5 used 3
     = (Inl (RuntimeError ''Optimizer already has a scheduler attached to it''),
        used\<lparr>history_lr := [], history_loss := [], best_loss := None\<rparr>, 3)"
  by (simp add: run_defs used_def)

lemma rejected_run:
  "range_test ex_train None (Some (Scalar (1/2))) 1 1 ''linear'' 0 5 fresh 0
     = (Inl (ValueError ''`num_iter` must be larger than 1''),
        fresh\<lparr>param_groups := [\<lparr>lr = 1/2, initial_lr = None\<rparr>, \<lparr>lr = 1/2, initial_lr = None\<rparr>]\<rparr>, 0)"
  by (simp add: run_defs fresh_def)




text \<open>
  Claim C5, as the code has it. When \<open>num_iter\<close> is at most \<open>1\<close>, or \<open>smooth_f\<close> is outside
  \<open>[0, 1)\<close>, or \<open>step_mode\<close> is neither \<open>exp\<close> nor \<open>linear\<close> in lower case, or a group carries
  the marker \<open>initial_lr\<close>, \<open>range_test\<close> raises before any iteration: the executors are
  left in their state. History and best loss are then empty and unset (they are reset
  first, not kept). With a marker the error is the \<^verbatim>\<open>RuntimeError\<close> and the groups are
  untouched. Without one, the learning rates are those that \<open>start_lr\<close> sets (the old
  ones when \<open>start_lr\<close> is absent or false), and the error is that of \<open>step_mode\<close>, else
  that of \<open>num_iter\<close>, else, when the schedule can be built, that of \<open>smooth_f\<close>.
\<close>

theorem range_test_rejects:
  assumes bad: "n \<le> 1 \<or> sf < 0 \<or> 1 \<le> sf \<or> (lower m \<noteq> ''exp'' \<and> lower m \<noteq> ''linear'')
                \<or> (\<exists>g \<in> set (param_groups F). initial_lr g \<noteq> None)"
  shows "\<exists>err F'. range_test tr va a e n m sf th F w = (Inl err, F', w)
      \<and> history_lr F' = [] \<and> history_loss F' = [] \<and> best_loss F' = None
      \<and> ((\<exists>g \<in> set (param_groups F). initial_lr g \<noteq> None) \<longrightarrow>
            err = RuntimeError ''Optimizer already has a scheduler attached to it''
          \<and> param_groups F' = param_groups F)
      \<and> ((\<forall>g \<in> set (param_groups F). initial_lr g = None)
            \<and> (case a of None \<Rightarrow> True | Some x \<Rightarrow> \<not> truthy x) \<longrightarrow>
            map lr (param_groups F') = map lr (param_groups F))
      \<and> (\<forall>F1. (\<forall>g \<in> set (param_groups F). initial_lr g = None)
              \<and> apply_start_lr a (F\<lparr>history_lr := [], history_loss := [], best_loss := None\<rparr>) = Inr F1 \<longrightarrow>
            map lr (param_groups F') = map lr (param_groups F1)
          \<and> (lower m \<noteq> ''exp'' \<and> lower m \<noteq> ''linear'' \<longrightarrow>
                err = ValueError (''expected one of (exp, linear), got '' @ m))
          \<and> ((lower m = ''exp'' \<or> lower m = ''linear'') \<and> n \<le> 1 \<longrightarrow>
                err = ValueError ''`num_iter` must be larger than 1'')
          \<and> ((lower m = ''linear'' \<or> (lower m = ''exp'' \<and> (\<forall>g \<in> set (param_groups F1). lr g \<noteq> 0)))
                \<and> 1 < n \<longrightarrow>
                err = ValueError ''smooth_f is outside the range [0, 1[''))"
proof -
  let ?F0 = "F\<lparr>history_lr := [], history_loss := [], best_loss := None\<rparr>"
  let ?marked = "\<exists>g \<in> set (param_groups F). initial_lr g \<noteq> None"
  let ?unmarked = "\<forall>g \<in> set (param_groups F). initial_lr g = None"
  let ?falsy = "case a of None \<Rightarrow> True | Some x \<Rightarrow> \<not> truthy x"
  define R where "R = RuntimeError ''Optimizer already has a scheduler attached to it''"
  define E_mode where "E_mode = ValueError (''expected one of (exp, linear), got '' @ m)"
  define E_iter where "E_iter = ValueError ''`num_iter` must be larger than 1''"
  define E_smooth where "E_smooth = ValueError ''smooth_f is outside the range [0, 1[''"
  define Q where "Q = (\<lambda>err (F' :: lr_finder) (F1 :: lr_finder). map lr (param_groups F') = map lr (param_groups F1)
          \<and> (lower m \<noteq> ''exp'' \<and> lower m \<noteq> ''linear'' \<longrightarrow> err = E_mode)
          \<and> ((lower m = ''exp'' \<or> lower m = ''linear'') \<and> n \<le> 1 \<longrightarrow> err = E_iter)
          \<and> ((lower m = ''linear'' \<or> (lower m = ''exp'' \<and> (\<forall>g \<in> set (param_groups F1). lr g \<noteq> 0)))
                \<and> 1 < n \<longrightarrow> err = E_smooth))"
  define P where "P = (\<lambda>err (F' :: lr_finder). history_lr F' = [] \<and> history_loss F' = [] \<and> best_loss F' = None
      \<and> (?marked \<longrightarrow> err = R \<and> param_groups F' = param_groups F)
      \<and> (?unmarked \<and> ?falsy \<longrightarrow> map lr (param_groups F') = map lr (param_groups F))
      \<and> (\<forall>F1. ?unmarked \<and> apply_start_lr a ?F0 = Inr F1 \<longrightarrow> Q err F' F1))"
  have falsy: "?falsy \<Longrightarrow> apply_start_lr a ?F0 = Inr ?F0"
    by (rule apply_start_lr_falsy)
  have found: "\<exists>err F'. prepare a e n m sf F = (Inl err, F') \<and> P err F'"
  proof (cases ?marked)
    case True
    then have "prepare a e n m sf F = (Inl R, ?F0)"
      by (simp add: prepare_eq R_def)
    moreover have "P R ?F0"
      unfolding P_def using True by auto
    ultimately show ?thesis by blast
  next
    case False
    then have um: ?unmarked by simp
    show ?thesis
    proof (cases "apply_start_lr a ?F0")
      case (Inl x)
      with False have "prepare a e n m sf F = (Inl x, ?F0)" by (simp add: prepare_eq)
      moreover have "P x ?F0"
        unfolding P_def using False Inl by simp
      ultimately show ?thesis by blast
    next
      case (Inr F1)
      note app = Inr
      note flds = apply_start_lr_fields [OF app]
      have h1: "history_lr F1 = []" "history_loss F1 = []" "best_loss F1 = None"
        using flds by simp_all
      have um1: "\<forall>g \<in> set (param_groups F1). initial_lr g = None"
        using apply_start_lr_unmarked [OF app] um by simp
      have same: "?falsy \<Longrightarrow> map lr (param_groups F1) = map lr (param_groups F)"
        using falsy app by auto
      have PI: "P err F'"
        if t: "history_lr F' = []" "history_loss F' = []" "best_loss F' = None" "Q err F' F1"
        for err F'
      proof -
        from t(4) have "map lr (param_groups F') = map lr (param_groups F1)"
          by (simp add: Q_def)
        with same have c5: "?falsy \<longrightarrow> map lr (param_groups F') = map lr (param_groups F)"
          by simp
        show ?thesis
          unfolding P_def using t False c5 app by simp
      qed
      let ?bs = "map lr (param_groups F1)"
      show ?thesis
      proof (cases "lower m \<noteq> ''exp'' \<and> lower m \<noteq> ''linear''")
        case True
        from True False app have "prepare a e n m sf F = (Inl E_mode, F1)"
          by (simp add: prepare_eq E_mode_def)
        moreover have "Q E_mode F1 F1" using True by (auto simp add: Q_def)
        ultimately show ?thesis using PI [OF h1] by blast
      next
        case good: False
        let ?p = "if lower m = ''exp'' then ExponentialLR else LinearLR"
        from good have g': "(lower m \<noteq> ''exp'' \<and> lower m \<noteq> ''linear'') = False" by simp
        show ?thesis
        proof (cases "n \<le> 1")
          case True
          from True False app have "prepare a e n m sf F = (Inl E_iter, F1)"
            by (simp add: prepare_eq scheduler_init_eq E_iter_def g')
          moreover have "Q E_iter F1 F1" using True good by (auto simp add: Q_def)
          ultimately show ?thesis using PI [OF h1] by blast
        next
          case n: False
          then have n1: "1 < n" by simp
          show ?thesis
          proof (cases "get_lr False (schedule_at ?p e n ?bs False 0)")
            case (Inl x)
            let ?F' = "F1\<lparr>param_groups := map setdefault_initial_lr (param_groups F1)\<rparr>"
            from Inl n False app have "prepare a e n m sf F = (Inl x, ?F')"
              by (simp add: prepare_eq scheduler_init_eq unmarked_base [OF um1] g')
            moreover have no: "\<not> (lower m = ''linear'' \<or> (lower m = ''exp'' \<and> (\<forall>g \<in> set (param_groups F1). lr g \<noteq> 0)))"
            proof
              assume "lower m = ''linear'' \<or> (lower m = ''exp'' \<and> (\<forall>g \<in> set (param_groups F1). lr g \<noteq> 0))"
              then have "get_lr False (schedule_at ?p e n ?bs False 0) = Inr ?bs"
                using get_lr_first_linear [OF n1] get_lr_first_exponential [OF n1, of ?bs e]
                by auto
              with Inl show False by simp
            qed
            have "Q x ?F' F1" using no n good by (auto simp add: Q_def setdefault_initial_lr_def)
            moreover have "history_lr ?F' = []" "history_loss ?F' = []" "best_loss ?F' = None"
              using h1 by simp_all
            ultimately show ?thesis using PI [of ?F' x] by blast
          next
            case (Inr vs)
            from get_lr_first [OF n1 Inr] have vs: "vs = ?bs" .
            let ?F' = "F1\<lparr>param_groups := assign_lrs (map setdefault_initial_lr (param_groups F1)) ?bs\<rparr>"
            from bad False good n have "sf < 0 \<or> 1 \<le> sf" by auto
            with Inr vs n False app
            have "prepare a e n m sf F = (Inl E_smooth, ?F')"
              by (simp add: prepare_eq scheduler_init_eq unmarked_base [OF um1] E_smooth_def g')
            moreover have "map lr (param_groups ?F') = ?bs"
              by (simp add: assign_lrs_lr)
            then have "Q E_smooth ?F' F1" using n good by (auto simp add: Q_def)
            moreover have "history_lr ?F' = []" "history_loss ?F' = []" "best_loss ?F' = None"
              using h1 by simp_all
            ultimately show ?thesis using PI [of ?F' E_smooth] by blast
          qed
        qed
      qed
    qed
  qed
  then obtain err F' where p: "prepare a e n m sf F = (Inl err, F')" and P: "P err F'" by blast
  from p have "range_test tr va a e n m sf th F w = (Inl err, F', w)"
    by (simp add: range_test_def)
  moreover note P [unfolded P_def Q_def R_def E_mode_def E_iter_def E_smooth_def]
  ultimately show ?thesis by (intro exI [of _ err] exI [of _ F'] conjI) simp_all
qed

theorem range_test_rejects_witness:
  "(\<exists>err F'. range_test ex_train None (Some (Scalar (1/2))) 1 1 ''linear'' 0 5 fresh (0::nat)
                 = (Inl err, F', 0)
      \<and> history_lr F' = [] \<and> history_loss F' = [] \<and> best_loss F' = None
      \<and> err = ValueError ''`num_iter` must be larger than 1''
      \<and> map lr (param_groups F') = [1/2, 1/2])
 \<and> (\<exists>err F'. range_test ex_train None None 1 4 ''linear'' (1/2) 5 used (3::nat)
                 = (Inl err, F', 3)
      \<and> history_lr F' = [] \<and> history_loss F' = [] \<and> best_loss F' = None
      \<and> err = RuntimeError ''Optimizer already has a scheduler attached to it''
      \<and> param_groups F' = param_groups used)"
proof
  let ?F0 = "fresh\<lparr>history_lr := [], history_loss := [], best_loss := None\<rparr>"
  let ?F1 = "?F0\<lparr>param_groups := [\<lparr>lr = 1/2, initial_lr = None\<rparr>, \<lparr>lr = 1/2, initial_lr = None\<rparr>]\<rparr>"
  have hyp: "(1::int) \<le> 1 \<or> (0::real) < 0 \<or> (1::real) \<le> 0
      \<or> (lower ''linear'' \<noteq> ''exp'' \<and> lower ''linear'' \<noteq> ''linear'')
      \<or> (\<exists>g \<in> set (param_groups fresh). initial_lr g \<noteq> None)" by simp
  have u: "\<forall>g \<in> set (param_groups fresh). initial_lr g = None" by (simp add: fresh_def)
  have a: "apply_start_lr (Some (Scalar (1/2))) ?F0 = Inr ?F1"
    by (simp add: apply_start_lr_def set_learning_rate_def fresh_def)
  have l: "lower ''linear'' = ''linear''" by (simp add: lower_def lower_char_def)
  from range_test_rejects [OF hyp, of ex_train None "Some (Scalar (1/2))" 1 5 "0::nat"]
  show "\<exists>err F'. range_test ex_train None (Some (Scalar (1/2))) 1 1 ''linear'' 0 5 fresh (0::nat)
                 = (Inl err, F', 0)
      \<and> history_lr F' = [] \<and> history_loss F' = [] \<and> best_loss F' = None
      \<and> err = ValueError ''`num_iter` must be larger than 1''
      \<and> map lr (param_groups F') = [1/2, 1/2]"
  proof (elim exE conjE)
    fix err F'
    assume r: "range_test ex_train None (Some (Scalar (1/2))) 1 1 ''linear'' 0 5 fresh (0::nat)
                 = (Inl err, F', 0)"
      and h: "history_lr F' = []" "history_loss F' = []" "best_loss F' = None"
      and q: "\<forall>F1. (\<forall>g \<in> set (param_groups fresh). initial_lr g = None)
              \<and> apply_start_lr (Some (Scalar (1/2))) ?F0 = Inr F1 \<longrightarrow>
            map lr (param_groups F') = map lr (param_groups F1)
          \<and> (lower ''linear'' \<noteq> ''exp'' \<and> lower ''linear'' \<noteq> ''linear'' \<longrightarrow>
                err = ValueError (''expected one of (exp, linear), got '' @ ''linear''))
          \<and> ((lower ''linear'' = ''exp'' \<or> lower ''linear'' = ''linear'') \<and> (1::int) \<le> 1 \<longrightarrow>
                err = ValueError ''`num_iter` must be larger than 1'')
          \<and> ((lower ''linear'' = ''linear''
                \<or> (lower ''linear'' = ''exp'' \<and> (\<forall>g \<in> set (param_groups F1). lr g \<noteq> 0)))
                \<and> (1::int) < 1 \<longrightarrow>
                err = ValueError ''smooth_f is outside the range [0, 1['')"
    note q1 = q [THEN spec, of ?F1, THEN mp, OF conjI [OF u a]]
    have i: "(lower ''linear'' = ''exp'' \<or> lower ''linear'' = ''linear'') \<and> (1::int) \<le> 1"
      using l by simp
    from q1 [THEN conjunct1] have lrs: "map lr (param_groups F') = [1/2, 1/2]" by simp
    from q1 [THEN conjunct2, THEN conjunct2, THEN conjunct1, THEN mp, OF i]
    have e: "err = ValueError ''`num_iter` must be larger than 1''" .
    show ?thesis
      by (rule exI [of _ err], rule exI [of _ F'])
         (rule conjI [OF r conjI [OF h(1) conjI [OF h(2) conjI [OF h(3) conjI [OF e lrs]]]]])
  qed
next
  have m: "\<exists>g \<in> set (param_groups used). initial_lr g \<noteq> None"
    by (simp add: used_def del: not_None_eq)
  then have hyp: "(4::int) \<le> 1 \<or> (1/2::real) < 0 \<or> (1::real) \<le> 1/2
      \<or> (lower ''linear'' \<noteq> ''exp'' \<and> lower ''linear'' \<noteq> ''linear'')
      \<or> (\<exists>g \<in> set (param_groups used). initial_lr g \<noteq> None)" by blast
  from range_test_rejects [OF hyp, of ex_train None None 1 5 "3::nat"]
  show "\<exists>err F'. range_test ex_train None None 1 4 ''linear'' (1/2) 5 used (3::nat)
                 = (Inl err, F', 3)
      \<and> history_lr F' = [] \<and> history_loss F' = [] \<and> best_loss F' = None
      \<and> err = RuntimeError ''Optimizer already has a scheduler attached to it''
      \<and> param_groups F' = param_groups used"
  proof (elim exE conjE)
    fix err F'
    assume r: "range_test ex_train None None 1 4 ''linear'' (1/2) 5 used (3::nat)
                 = (Inl err, F', 3)"
      and h: "history_lr F' = []" "history_loss F' = []" "best_loss F' = None"
      and q: "(\<exists>g \<in> set (param_groups used). initial_lr g \<noteq> None) \<longrightarrow>
            err = RuntimeError ''Optimizer already has a scheduler attached to it''
          \<and> param_groups F' = param_groups used"
    note q1 = q [THEN mp, OF m]
    show ?thesis
      by (rule exI [of _ err], rule exI [of _ F'])
         (rule conjI [OF r conjI [OF h(1) conjI [OF h(2) conjI [OF h(3) q1]]]])
  qed
qed

theorem range_test_rejects_counterexample:
  "range_test ex_train None (Some (Scalar (1/2))) 1 1 ''linear'' 0 5 fresh (0::nat)
     = (Inl (ValueError ''`num_iter` must be larger than 1''),
        fresh\<lparr>param_groups := [\<lparr>lr = 1/2, initial_lr = None\<rparr>, \<lparr>lr = 1/2, initial_lr = None\<rparr>]\<rparr>, 0)
 \<and> map lr (param_groups fresh) = [1/10, 1/5]
 \<and> range_test ex_train None None 1 4 ''linear'' (1/2) 5 fresh (0::nat) = (Inr (), used, 3)
 \<and> history_lr used = [1/10, 2/5, 7/10] \<and> best_loss used = Some 1
 \<and> range_test ex_train None None 1 4 ''linear'' (1/2) 5 used (3::nat)
     = (Inl (RuntimeError ''Optimizer already has a scheduler attached to it''),
        used\<lparr>history_lr := [], history_loss := [], best_loss := None\<rparr>, 3)"
proof -
  have "map lr (param_groups fresh) = [1/10, 1/5]" by (simp add: fresh_def)
  moreover have "history_lr used = [1/10, 2/5, 7/10] \<and> best_loss used = Some 1"
    by (simp add: used_def)
  ultimately show ?thesis using rejected_run first_run second_run by simp
qed

text \<open>A starting rate that Python holds for true is written to every group.\<close>

lemma start_lr_applied:
  "x \<noteq> 0 \<Longrightarrow> \<exists>F1. apply_start_lr (Some (Scalar x)) F = Inr F1
      \<and> map lr (param_groups F1) = replicate (length (param_groups F)) x"
  "xs \<noteq> [] \<Longrightarrow> length xs = length (param_groups F) \<Longrightarrow>
     \<exists>F1. apply_start_lr (Some (PerGroup xs)) F = Inr F1 \<and> map lr (param_groups F1) = xs"
  "xs \<noteq> [] \<Longrightarrow> length xs \<noteq> length (param_groups F) \<Longrightarrow>
     apply_start_lr (Some (PerGroup xs)) F = Inl (ValueError
       ''Length of `new_lrs` is not equal to the number of parameter groups in the given optimizer'')"
  by (simp_all add: apply_start_lr_def set_learning_rate_def assign_lrs_lr)

text \<open>
  Claim C6, at the starting rate \<open>0.0\<close> and at an empty list: \<^verbatim>\<open>if start_lr:\<close> holds
  both for false, so the groups keep their rates \<open>1/10\<close> and \<open>1/5\<close>, the sweep starts
  from \<open>1/10\<close> and the empty list, on an optimizer of two groups, raises nothing.
\<close>

theorem start_lr_zero_ignored:
  "range_test ex_train None (Some (Scalar 0)) 1 2 ''linear'' 0 5 fresh (0::nat)
     = (Inr (),
        \<lparr>param_groups = [\<lparr>lr = 19/10, initial_lr = Some (1/10)\<rparr>, \<lparr>lr = 9/5, initial_lr = Some (1/5)\<rparr>],
         history_lr = [1/10, 1], history_loss = [1, 2], best_loss = Some 1\<rparr>, 2)
 \<and> range_test ex_train None (Some (PerGroup [])) 1 2 ''linear'' 0 5 fresh (0::nat)
     = (Inr (),
        \<lparr>param_groups = [\<lparr>lr = 19/10, initial_lr = Some (1/10)\<rparr>, \<lparr>lr = 9/5, initial_lr = Some (1/5)\<rparr>],
         history_lr = [1/10, 1], history_loss = [1, 2], best_loss = Some 1\<rparr>, 2)"
  by (simp add: run_defs fresh_def ex_train_def upt2)

end
